theory Spec2Isabelle
  imports Main
begin

section \<open>Data model of the study planner (App.tsx)\<close>

text \<open>
  The TypeScript interfaces \<open>Subject\<close>, \<open>UserSettings\<close> and \<open>DailyTask\<close> become records.
  Both \<open>Subject\<close> and \<open>DailyTask\<close> have a field \<open>id\<close> in the source; it is written
  \<open>s_id\<close> and \<open>t_id\<close> here (\<open>id\<close> is the identity function of HOL), and the field
  \<open>name\<close> of a subject is \<open>s_name\<close>. JavaScript numbers are modelled as \<open>int\<close>: all
  arithmetic of the allocator (\<open>+\<close>, \<open>-\<close>, \<open>*\<close>, \<open>min\<close>, \<open>max\<close>) is exact on integers.
\<close>

record Subject =
  s_id :: string
  s_name :: string
  difficulty :: int
  testDate :: string
  color :: string

record UserSettings =
  weekdayHours :: int
  weekendHours :: int
  maxSubjectsPerDay :: int

record DailyTask =
  t_id :: string
  subjectId :: string
  date :: string
  plannedMinutes :: int
  completed :: bool
  actualMinutes :: int
  isFixed :: bool

text \<open>The anonymous object \<open>{ subject, minutesNeeded }\<close> built for \<open>pendingWork\<close>.\<close>

record Work =
  subject :: Subject
  minutesNeeded :: int

section \<open>Local calendar days\<close>

text \<open>
  \<open>start\<close> is \<open>new Date()\<close> at local midnight, and the loop only reads the local calendar
  fields of \<open>currentDate\<close> and advances it by \<open>setDate(getDate() + 1)\<close>. A date object is
  therefore its local year, month (0 to 11, as \<open>getMonth\<close> returns it) and day of month.
\<close>

record JsDate =
  getFullYear :: nat
  getMonth :: nat
  getDate :: nat

definition isLeapYear :: "nat \<Rightarrow> bool" where
  "isLeapYear y = (y mod 4 = 0 \<and> (y mod 100 \<noteq> 0 \<or> y mod 400 = 0))"

definition daysInMonth :: "nat \<Rightarrow> nat \<Rightarrow> nat" where
  "daysInMonth y m =
     (if m = 1 then (if isLeapYear y then 29 else 28)
      else if m = 3 \<or> m = 5 \<or> m = 8 \<or> m = 10 then 30 else 31)"

definition validDate :: "JsDate \<Rightarrow> bool" where
  "validDate d = (getMonth d < 12 \<and> 1 \<le> getDate d \<and> getDate d \<le> daysInMonth (getFullYear d) (getMonth d))"

text \<open>\<open>currentDate.setDate(currentDate.getDate() + 1)\<close>: the next local calendar day.\<close>

definition setDateNext :: "JsDate \<Rightarrow> JsDate" where
  "setDateNext d =
     (if getDate d < daysInMonth (getFullYear d) (getMonth d) then d\<lparr>getDate := getDate d + 1\<rparr>
      else if getMonth d < 11 then d\<lparr>getMonth := getMonth d + 1, getDate := 1\<rparr>
      else \<lparr>getFullYear = getFullYear d + 1, getMonth = 0, getDate = 1\<rparr>)"

text \<open>\<open>getDay()\<close>: 0 is Sunday, 6 is Saturday (Gregorian calendar).\<close>

definition monthOffset :: "nat \<Rightarrow> nat" where
  "monthOffset m = [0, 3, 2, 5, 0, 3, 5, 1, 4, 6, 2, 4] ! m"

definition getDay :: "JsDate \<Rightarrow> nat" where
  "getDay d =
     (let y = (if getMonth d < 2 then getFullYear d - 1 else getFullYear d)
      in (y + y div 4 - y div 100 + y div 400 + monthOffset (getMonth d) + getDate d) mod 7)"

text \<open>
  The weekday of some known days: Monday 2 November 2026, the Saturday and the Sunday that
  follow, Thursday 29 February 2024, Saturday 1 January 2000, Thursday 1 January 1970.
\<close>

lemma getDay_examples:
  "getDay \<lparr>getFullYear = 2026, getMonth = 10, getDate = 2\<rparr> = 1"
  "getDay \<lparr>getFullYear = 2026, getMonth = 10, getDate = 7\<rparr> = 6"
  "getDay \<lparr>getFullYear = 2026, getMonth = 10, getDate = 8\<rparr> = 0"
  "getDay \<lparr>getFullYear = 2024, getMonth = 1, getDate = 29\<rparr> = 4"
  "getDay \<lparr>getFullYear = 2000, getMonth = 0, getDate = 1\<rparr> = 6"
  "getDay \<lparr>getFullYear = 1970, getMonth = 0, getDate = 1\<rparr> = 4"
  by (simp_all add: getDay_def monthOffset_def)

subsection \<open>Strings\<close>

definition digitChar :: "nat \<Rightarrow> char" where
  "digitChar n = char_of (48 + n)"

text \<open>\<open>String(n)\<close> for a natural number: its decimal digits.\<close>

fun showNat :: "nat \<Rightarrow> string" where
  "showNat n = (if n < 10 then [digitChar n] else showNat (n div 10) @ [digitChar (n mod 10)])"

declare showNat.simps [simp del]

text \<open>\<open>s.padStart(2, '0')\<close>.\<close>

definition padStart2 :: "string \<Rightarrow> string" where
  "padStart2 s = replicate (2 - length s) CHR ''0'' @ s"

definition toLocalDateString :: "JsDate \<Rightarrow> string" where
  "toLocalDateString d =
     showNat (getFullYear d) @ ''-'' @ padStart2 (showNat (getMonth d + 1)) @ ''-''
       @ padStart2 (showNat (getDate d))"

text \<open>
  The comparison \<open><\<close> of JavaScript strings: lexicographic on the code units, a proper
  prefix being smaller. \<open>a <= b\<close> on strings is \<open>a < b\<close> or \<open>a = b\<close>.
\<close>

fun strLess :: "string \<Rightarrow> string \<Rightarrow> bool" where
  "strLess [] [] = False"
| "strLess [] (y # ys) = True"
| "strLess (x # xs) [] = False"
| "strLess (x # xs) (y # ys) =
     ((of_char x :: nat) < of_char y \<or> (x = y \<and> strLess xs ys))"

definition strLessEq :: "string \<Rightarrow> string \<Rightarrow> bool" where
  "strLessEq a b = (a = b \<or> strLess a b)"

text \<open>
  \<open>a.localeCompare(b)\<close>, used only as the comparator of test dates: negative, zero or
  positive. On date strings (digits and hyphens) it agrees with the code-unit order, which
  is what the model takes.
\<close>

definition localeCompare :: "string \<Rightarrow> string \<Rightarrow> int" where
  "localeCompare a b = (if strLess a b then - 1 else if a = b then 0 else 1)"

section \<open>The allocator \<open>generateSchedule\<close>\<close>

definition calculateTotalHoursNeeded :: "int \<Rightarrow> int" where
  "calculateTotalHoursNeeded diff = diff * 3"

definition MAX_DAYS :: nat where
  "MAX_DAYS = 365"

definition fixedOrCompletedTasks :: "DailyTask list \<Rightarrow> DailyTask list" where
  "fixedOrCompletedTasks schedule = filter (\<lambda>t. isFixed t \<or> completed t) schedule"

text \<open>The \<open>reduce\<close> that sums what a subject already has among the preserved tasks.\<close>

definition allocatedMins :: "DailyTask list \<Rightarrow> Subject \<Rightarrow> int" where
  "allocatedMins fc s =
     sum_list (map (\<lambda>t. if completed t then actualMinutes t else plannedMinutes t)
       (filter (\<lambda>t. subjectId t = s_id s) fc))"

definition initialPendingWork :: "Subject list \<Rightarrow> DailyTask list \<Rightarrow> Work list" where
  "initialPendingWork subjects fc =
     filter (\<lambda>w. minutesNeeded w > 0)
       (map (\<lambda>s. \<lparr>subject = s,
                  minutesNeeded = max 0 (calculateTotalHoursNeeded (difficulty s) * 60 - allocatedMins fc s)\<rparr>)
          subjects)"

definition existingMinsToday :: "DailyTask list \<Rightarrow> string \<Rightarrow> int" where
  "existingMinsToday fc dateStr =
     sum_list (map plannedMinutes (filter (\<lambda>t. date t = dateStr) fc))"

text \<open>
  A \<open>Set<string>\<close> is a list without repetition, in insertion order: \<open>has\<close> is membership,
  \<open>size\<close> is the length, \<open>add\<close> appends an element that is not there yet.
\<close>

definition setAdd :: "string list \<Rightarrow> string \<Rightarrow> string list" where
  "setAdd xs x = (if x \<in> set xs then xs else xs @ [x])"

definition assignedIdsOf :: "DailyTask list \<Rightarrow> string \<Rightarrow> string list" where
  "assignedIdsOf fc dateStr = foldl setAdd [] (map subjectId (filter (\<lambda>t. date t = dateStr) fc))"

text \<open>
  \<open>pendingWork\<close> is an array of objects, and \<open>activeSubjects\<close> is a filtered, sorted array
  of references to the same objects: \<open>work.minutesNeeded -= ...\<close> changes the object that
  \<open>pendingWork\<close> holds. The array \<open>pendingWork\<close> is never resized, so a reference is an index
  into it, and \<open>activeSubjects\<close> is a list of indices.
\<close>

definition compareWork :: "Work \<Rightarrow> Work \<Rightarrow> int" where
  "compareWork a b =
     (if testDate (subject a) \<noteq> testDate (subject b)
      then localeCompare (testDate (subject a)) (testDate (subject b))
      else difficulty (subject b) - difficulty (subject a))"

text \<open>\<open>Array.prototype.sort\<close> is stable: insertion from the right keeps equal elements in order.\<close>

fun insortBy :: "('a \<Rightarrow> 'a \<Rightarrow> int) \<Rightarrow> 'a \<Rightarrow> 'a list \<Rightarrow> 'a list" where
  "insortBy cmp x [] = [x]"
| "insortBy cmp x (y # ys) = (if cmp x y \<le> 0 then x # y # ys else y # insortBy cmp x ys)"

definition sortBy :: "('a \<Rightarrow> 'a \<Rightarrow> int) \<Rightarrow> 'a list \<Rightarrow> 'a list" where
  "sortBy cmp xs = foldr (insortBy cmp) xs []"

definition activeSubjectsOf :: "string \<Rightarrow> Work list \<Rightarrow> nat list" where
  "activeSubjectsOf dateStr pw =
     sortBy (\<lambda>i j. compareWork (pw ! i) (pw ! j))
       (filter (\<lambda>i. strLessEq dateStr (testDate (subject (pw ! i))) \<and> minutesNeeded (pw ! i) > 0)
          [0..<length pw])"

text \<open>\<open>findIndex\<close>: the first position that satisfies the predicate, \<open>None\<close> for \<open>-1\<close>.\<close>

fun findIndex :: "('a \<Rightarrow> bool) \<Rightarrow> 'a list \<Rightarrow> nat option" where
  "findIndex p [] = None"
| "findIndex p (x # xs) =
     (if p x then Some 0 else (case findIndex p xs of None \<Rightarrow> None | Some k \<Rightarrow> Some (Suc k)))"

text \<open>
  The variables of one run. \<open>uuidCalls\<close> counts the calls of \<open>uuid()\<close> so far: the
  identifiers it returns are an input of the run, the function \<open>uuid :: nat \<Rightarrow> string\<close>
  giving the result of the n-th call. The last three fields are the variables declared
  inside the body of the outer loop.
\<close>

record RunState =
  pendingWork :: "Work list"
  newAutoTasks :: "DailyTask list"
  uuidCalls :: nat
  currentDate :: JsDate
  daysCount :: nat
  assignedSubjectIdsToday :: "string list"
  minutesAllocatedToday :: int
  activeSubjects :: "nat list"

text \<open>
  The parts of one iteration of the inner \<open>while\<close> loop (lines 289 to 336), for the
  work item at index \<open>i\<close>, the head of \<open>activeSubjects\<close>: the test of the subject cap, the
  minutes of the slot, and the merge into \<open>newAutoTasks\<close>.
\<close>

definition capBlocks :: "UserSettings \<Rightarrow> RunState \<Rightarrow> nat \<Rightarrow> bool" where
  "capBlocks settings st i =
     (s_id (subject (pendingWork st ! i)) \<notin> set (assignedSubjectIdsToday st)
      \<and> int (length (assignedSubjectIdsToday st)) \<ge> maxSubjectsPerDay settings)"

definition timeToAllocate :: "int \<Rightarrow> RunState \<Rightarrow> nat \<Rightarrow> int" where
  "timeToAllocate maxMinutes st i =
     (let slot = 30
      in min slot (min (maxMinutes - minutesAllocatedToday st) (minutesNeeded (pendingWork st ! i))))"

definition existingAutoTaskIndex :: "string \<Rightarrow> string \<Rightarrow> DailyTask list \<Rightarrow> nat option" where
  "existingAutoTaskIndex dateStr sid tasks =
     findIndex (\<lambda>t. date t = dateStr \<and> subjectId t = sid) tasks"

definition mergeTask :: "string \<Rightarrow> string \<Rightarrow> string \<Rightarrow> int \<Rightarrow> DailyTask list \<Rightarrow> DailyTask list" where
  "mergeTask newId dateStr sid mins tasks =
     (case existingAutoTaskIndex dateStr sid tasks of
        Some k \<Rightarrow> tasks[k := (tasks ! k)\<lparr>plannedMinutes := plannedMinutes (tasks ! k) + mins\<rparr>]
      | None \<Rightarrow>
          tasks @ [\<lparr>t_id = newId, subjectId = sid, date = dateStr, plannedMinutes = mins,
                    completed = False, actualMinutes = 0, isFixed = False\<rparr>])"

text \<open>
  One iteration of the inner loop. \<open>uuid()\<close> is called only when a task is pushed. The
  loop runs the iteration on a queue that is not empty, and the indices of the queue are
  below the length of \<open>pendingWork\<close> (\<open>queueOk\<close> below): the first case and a read out of
  range do not occur in a run.
\<close>

definition allocateStep ::
  "(nat \<Rightarrow> string) \<Rightarrow> UserSettings \<Rightarrow> string \<Rightarrow> int \<Rightarrow> RunState \<Rightarrow> RunState" where
  "allocateStep uuid settings dateStr maxMinutes st =
     (case activeSubjects st of
        [] \<Rightarrow> st
      | i # rest \<Rightarrow>
          if capBlocks settings st i then st\<lparr>activeSubjects := rest\<rparr>
          else
            let work = pendingWork st ! i;
                mins = timeToAllocate maxMinutes st i;
                pw' = (pendingWork st)[i := work\<lparr>minutesNeeded := minutesNeeded work - mins\<rparr>]
            in st\<lparr>pendingWork := pw',
                  newAutoTasks :=
                    mergeTask (uuid (uuidCalls st)) dateStr (s_id (subject work)) mins (newAutoTasks st),
                  uuidCalls :=
                    (case existingAutoTaskIndex dateStr (s_id (subject work)) (newAutoTasks st) of
                       Some k \<Rightarrow> uuidCalls st
                     | None \<Rightarrow> Suc (uuidCalls st)),
                  assignedSubjectIdsToday := setAdd (assignedSubjectIdsToday st) (s_id (subject work)),
                  minutesAllocatedToday := minutesAllocatedToday st + mins,
                  activeSubjects := (if minutesNeeded (pw' ! i) \<le> 0 then rest else rest @ [i])\<rparr>)"

subsection \<open>The inner loop\<close>

text \<open>
  The inner loop ends: an iteration removes the head of the queue, or it allocates at
  least one minute of the day's remaining capacity. The measure counts the queue, weighted by
  the needs, and the remaining capacity.
\<close>

definition dayMeasure :: "int \<Rightarrow> RunState \<Rightarrow> nat" where
  "dayMeasure maxMinutes st =
     sum_list (map (\<lambda>i. 1 + nat \<bar>minutesNeeded (pendingWork st ! i)\<bar>) (activeSubjects st))
       + nat (maxMinutes - minutesAllocatedToday st)"

lemma allocateStep_skip:
  "activeSubjects st = i # rest \<Longrightarrow> capBlocks settings st i \<Longrightarrow>
   allocateStep uuid settings dateStr maxMinutes st = st\<lparr>activeSubjects := rest\<rparr>"
  by (simp add: allocateStep_def)

lemma allocateStep_alloc:
  "activeSubjects st = i # rest \<Longrightarrow> \<not> capBlocks settings st i \<Longrightarrow>
   allocateStep uuid settings dateStr maxMinutes st =
     st\<lparr>pendingWork := (pendingWork st)[i := (pendingWork st ! i)
            \<lparr>minutesNeeded := minutesNeeded (pendingWork st ! i) - timeToAllocate maxMinutes st i\<rparr>],
        newAutoTasks := mergeTask (uuid (uuidCalls st)) dateStr (s_id (subject (pendingWork st ! i)))
            (timeToAllocate maxMinutes st i) (newAutoTasks st),
        uuidCalls := (case existingAutoTaskIndex dateStr (s_id (subject (pendingWork st ! i))) (newAutoTasks st) of
                       Some k \<Rightarrow> uuidCalls st | None \<Rightarrow> Suc (uuidCalls st)),
        assignedSubjectIdsToday := setAdd (assignedSubjectIdsToday st) (s_id (subject (pendingWork st ! i))),
        minutesAllocatedToday := minutesAllocatedToday st + timeToAllocate maxMinutes st i,
        activeSubjects :=
          (if minutesNeeded ((pendingWork st)[i := (pendingWork st ! i)
              \<lparr>minutesNeeded := minutesNeeded (pendingWork st ! i) - timeToAllocate maxMinutes st i\<rparr>] ! i) \<le> 0
           then rest else rest @ [i])\<rparr>"
  by (simp add: allocateStep_def Let_def)

lemma allocateStep_decreases:
  assumes "minutesAllocatedToday st < maxMinutes" "activeSubjects st \<noteq> []"
  shows "dayMeasure maxMinutes (allocateStep uuid settings dateStr maxMinutes st) < dayMeasure maxMinutes st"
proof -
  obtain i rest where q: "activeSubjects st = i # rest"
    using assms(2) by (cases "activeSubjects st") auto
  define pw where "pw = pendingWork st"
  define n where "n = minutesNeeded (pw ! i)"
  define r where "r = maxMinutes - minutesAllocatedToday st"
  define t where "t = timeToAllocate maxMinutes st i"
  define pw' where "pw' = pw[i := (pw ! i)\<lparr>minutesNeeded := n - t\<rparr>]"
  define w where "w = (\<lambda>j. 1 + nat \<bar>minutesNeeded (pw ! j)\<bar>)"
  define w' where "w' = (\<lambda>j. 1 + nat \<bar>minutesNeeded (pw' ! j)\<bar>)"
  have r: "0 < r" using assms(1) by (simp add: r_def)
  have t_eq: "t = min 30 (min r n)"
    by (simp add: t_def timeToAllocate_def r_def n_def pw_def)
  have tn: "\<bar>n - t\<bar> \<le> \<bar>n\<bar>" using r by (auto simp: t_eq min_def)
  have le: "w' j \<le> w j" for j
    using tn by (cases "j = i"; cases "i < length pw") (auto simp: w_def w'_def pw'_def n_def list_update_beyond)
  have rest_le: "sum_list (map w' rest) \<le> sum_list (map w rest)"
    by (rule sum_list_mono) (simp add: le)
  have old: "dayMeasure maxMinutes st = w i + sum_list (map w rest) + nat r"
    by (simp add: dayMeasure_def q w_def pw_def r_def)
  show ?thesis
  proof (cases "capBlocks settings st i")
    case True
    then show ?thesis
      by (simp add: allocateStep_skip[OF q] q dayMeasure_def)
  next
    case False
    have new: "dayMeasure maxMinutes (allocateStep uuid settings dateStr maxMinutes st)
       = sum_list (map w' (if minutesNeeded (pw' ! i) \<le> 0 then rest else rest @ [i])) + nat (r - t)"
      unfolding allocateStep_alloc[OF q False] dayMeasure_def w'_def pw'_def pw_def n_def r_def t_def
      by (simp add: diff_diff_eq)
    show ?thesis
    proof (cases "0 < n")
      case True
      then have t1: "1 \<le> t" "t \<le> r" using r by (auto simp: t_eq)
      have "sum_list (map w' (if minutesNeeded (pw' ! i) \<le> 0 then rest else rest @ [i]))
            \<le> sum_list (map w' rest) + w' i" by simp
      also have "\<dots> \<le> sum_list (map w rest) + w i" using rest_le le[of i] by linarith
      finally show ?thesis using t1 r unfolding new old by linarith
    next
      case False
      then have t: "t = n" using r by (auto simp: t_eq)
      have "minutesNeeded (pw' ! i) \<le> 0"
        using False by (cases "i < length pw") (auto simp: pw'_def t n_def list_update_beyond)
      then have "sum_list (map w' (if minutesNeeded (pw' ! i) \<le> 0 then rest else rest @ [i]))
            = sum_list (map w' rest)" by simp
      moreover have "nat (r - t) < w i + nat r" using False r by (simp add: t w_def n_def)
      ultimately show ?thesis using rest_le unfolding new old by linarith
    qed
  qed
qed

function allocateLoop ::
  "(nat \<Rightarrow> string) \<Rightarrow> UserSettings \<Rightarrow> string \<Rightarrow> int \<Rightarrow> RunState \<Rightarrow> RunState" where
  "allocateLoop uuid settings dateStr maxMinutes st =
     (if minutesAllocatedToday st < maxMinutes \<and> activeSubjects st \<noteq> []
      then allocateLoop uuid settings dateStr maxMinutes (allocateStep uuid settings dateStr maxMinutes st)
      else st)"
  by pat_completeness auto
termination
  by (relation "measure (\<lambda>(uuid, settings, dateStr, maxMinutes, st). dayMeasure maxMinutes st)")
     (auto simp: allocateStep_decreases)

declare allocateLoop.simps [simp del]

subsection \<open>The outer loop\<close>

lemma allocateStep_daysCount:
  "daysCount (allocateStep uuid settings dateStr maxMinutes st) = daysCount st"
  by (simp add: allocateStep_def Let_def split: list.splits)

lemma allocateLoop_daysCount:
  "daysCount (allocateLoop uuid settings dateStr maxMinutes st) = daysCount st"
proof (induction uuid settings dateStr maxMinutes st rule: allocateLoop.induct)
  case (1 uuid settings dateStr maxMinutes st)
  then show ?case
    by (subst allocateLoop.simps) (simp add: allocateStep_daysCount)
qed

definition maxMinutesOn :: "UserSettings \<Rightarrow> JsDate \<Rightarrow> int" where
  "maxMinutesOn settings d =
     (let dayOfWeek = getDay d;
          isWeekend = (dayOfWeek = 0 \<or> dayOfWeek = 6)
      in (if isWeekend then weekendHours settings else weekdayHours settings) * 60)"

text \<open>
  The variables the body of the outer loop declares before its inner loop (lines 257 to
  285), then the inner loop, then the step to the next day (lines 339 and 340).
\<close>

definition dayStart :: "DailyTask list \<Rightarrow> RunState \<Rightarrow> RunState" where
  "dayStart fc st =
     (let dateStr = toLocalDateString (currentDate st)
      in st\<lparr>assignedSubjectIdsToday := assignedIdsOf fc dateStr,
            minutesAllocatedToday := existingMinsToday fc dateStr,
            activeSubjects := activeSubjectsOf dateStr (pendingWork st)\<rparr>)"

definition dayStep :: "(nat \<Rightarrow> string) \<Rightarrow> UserSettings \<Rightarrow> DailyTask list \<Rightarrow> RunState \<Rightarrow> RunState" where
  "dayStep uuid settings fc st =
     (let dateStr = toLocalDateString (currentDate st);
          maxMinutes = maxMinutesOn settings (currentDate st);
          st' = allocateLoop uuid settings dateStr maxMinutes (dayStart fc st)
      in st'\<lparr>currentDate := setDateNext (currentDate st'), daysCount := daysCount st' + 1\<rparr>)"

lemma dayStep_daysCount: "daysCount (dayStep uuid settings fc st) = Suc (daysCount st)"
  by (simp add: dayStep_def dayStart_def Let_def allocateLoop_daysCount)

function scheduleLoop :: "(nat \<Rightarrow> string) \<Rightarrow> UserSettings \<Rightarrow> DailyTask list \<Rightarrow> RunState \<Rightarrow> RunState" where
  "scheduleLoop uuid settings fc st =
     (if list_ex (\<lambda>w. minutesNeeded w > 0) (pendingWork st) \<and> daysCount st < MAX_DAYS
      then scheduleLoop uuid settings fc (dayStep uuid settings fc st)
      else st)"
  by pat_completeness auto
termination
  by (relation "measure (\<lambda>(uuid, settings, fc, st). MAX_DAYS - daysCount st)")
     (auto simp: dayStep_daysCount)

declare scheduleLoop.simps [simp del]

text \<open>
  \<open>generateSchedule\<close> reads the state of the component (\<open>subjects\<close>, \<open>schedule\<close>,
  \<open>settings\<close>), the clock (\<open>today\<close>, the local day of \<open>new Date()\<close>) and the identifiers
  \<open>uuid()\<close> returns; it ends with \<open>setSchedule\<close>, whose argument is the result here. With
  no subject it returns at once and the schedule stays as it is.
\<close>

definition initialState :: "JsDate \<Rightarrow> Work list \<Rightarrow> RunState" where
  "initialState today pw =
     \<lparr>pendingWork = pw, newAutoTasks = [], uuidCalls = 0, currentDate = today, daysCount = 0,
      assignedSubjectIdsToday = [], minutesAllocatedToday = 0, activeSubjects = []\<rparr>"

definition finalState ::
  "(nat \<Rightarrow> string) \<Rightarrow> JsDate \<Rightarrow> Subject list \<Rightarrow> DailyTask list \<Rightarrow> UserSettings \<Rightarrow> RunState" where
  "finalState uuid today subjects schedule settings =
     scheduleLoop uuid settings (fixedOrCompletedTasks schedule)
       (initialState today (initialPendingWork subjects (fixedOrCompletedTasks schedule)))"

definition generatedTasks ::
  "(nat \<Rightarrow> string) \<Rightarrow> JsDate \<Rightarrow> Subject list \<Rightarrow> DailyTask list \<Rightarrow> UserSettings \<Rightarrow> DailyTask list" where
  "generatedTasks uuid today subjects schedule settings =
     newAutoTasks (finalState uuid today subjects schedule settings)"

definition generateSchedule ::
  "(nat \<Rightarrow> string) \<Rightarrow> JsDate \<Rightarrow> Subject list \<Rightarrow> DailyTask list \<Rightarrow> UserSettings \<Rightarrow> DailyTask list" where
  "generateSchedule uuid today subjects schedule settings =
     (if subjects = [] then schedule
      else fixedOrCompletedTasks schedule @ generatedTasks uuid today subjects schedule settings)"

section \<open>Loop invariants\<close>

lemma allocateLoop_rule_aux:
  "P st \<Longrightarrow>
   (\<forall>s. P s \<and> minutesAllocatedToday s < maxMinutes \<and> activeSubjects s \<noteq> []
        \<longrightarrow> P (allocateStep uuid settings dateStr maxMinutes s)) \<Longrightarrow>
   P (allocateLoop uuid settings dateStr maxMinutes st)"
proof (induction uuid settings dateStr maxMinutes st rule: allocateLoop.induct)
  case (1 uuid settings dateStr maxMinutes st)
  show ?case
  proof (cases "minutesAllocatedToday st < maxMinutes \<and> activeSubjects st \<noteq> []")
    case True
    then have "P (allocateStep uuid settings dateStr maxMinutes st)"
      using "1.prems" by simp
    then have "P (allocateLoop uuid settings dateStr maxMinutes (allocateStep uuid settings dateStr maxMinutes st))"
      using True "1.IH" "1.prems"(2) by simp
    then show ?thesis
      using True by (subst allocateLoop.simps) simp
  next
    case False
    then show ?thesis
      using "1.prems"(1) by (subst allocateLoop.simps) auto
  qed
qed

lemma allocateLoop_rule:
  assumes "P st"
    and "\<And>s. P s \<Longrightarrow> minutesAllocatedToday s < maxMinutes \<Longrightarrow> activeSubjects s \<noteq> []
           \<Longrightarrow> P (allocateStep uuid settings dateStr maxMinutes s)"
  shows "P (allocateLoop uuid settings dateStr maxMinutes st)"
  by (rule allocateLoop_rule_aux[of P, OF assms(1)]) (simp add: assms(2))

lemma scheduleLoop_rule_aux:
  "P st \<Longrightarrow>
   (\<forall>s. P s \<and> list_ex (\<lambda>w. minutesNeeded w > 0) (pendingWork s) \<and> daysCount s < MAX_DAYS
        \<longrightarrow> P (dayStep uuid settings fc s)) \<Longrightarrow>
   P (scheduleLoop uuid settings fc st)"
proof (induction uuid settings fc st rule: scheduleLoop.induct)
  case (1 uuid settings fc st)
  show ?case
  proof (cases "list_ex (\<lambda>w. minutesNeeded w > 0) (pendingWork st) \<and> daysCount st < MAX_DAYS")
    case True
    then have "P (dayStep uuid settings fc st)"
      using "1.prems" by simp
    then have "P (scheduleLoop uuid settings fc (dayStep uuid settings fc st))"
      using True "1.IH" "1.prems"(2) by simp
    then show ?thesis
      using True by (subst scheduleLoop.simps) simp
  next
    case False
    then show ?thesis
      using "1.prems"(1) by (subst scheduleLoop.simps) auto
  qed
qed

lemma scheduleLoop_rule:
  assumes "P st"
    and "\<And>s. P s \<Longrightarrow> list_ex (\<lambda>w. minutesNeeded w > 0) (pendingWork s) \<Longrightarrow> daysCount s < MAX_DAYS
           \<Longrightarrow> P (dayStep uuid settings fc s)"
  shows "P (scheduleLoop uuid settings fc st)"
  by (rule scheduleLoop_rule_aux[of P, OF assms(1)]) (simp add: assms(2))


lemma allocateStep_currentDate:
  "currentDate (allocateStep uuid settings dateStr maxMinutes st) = currentDate st"
  by (simp add: allocateStep_def Let_def split: list.splits)

lemma allocateLoop_currentDate:
  "currentDate (allocateLoop uuid settings dateStr maxMinutes st) = currentDate st"
proof -
  define P where "P x \<longleftrightarrow> currentDate x = currentDate st" for x :: RunState
  have "P (allocateLoop uuid settings dateStr maxMinutes st)"
    by (rule allocateLoop_rule) (simp_all add: P_def allocateStep_currentDate)
  then show ?thesis by (simp add: P_def)
qed

lemma initialState_currentDate: "currentDate (initialState today pw) = today"
  by (simp add: initialState_def)

section \<open>Facts about the merge into the new tasks\<close>

definition taskKey :: "DailyTask \<Rightarrow> string \<times> string" where
  "taskKey t = (subjectId t, date t)"

lemma mergeTask_Nil:
  "mergeTask newId ds sid mins [] =
     [\<lparr>t_id = newId, subjectId = sid, date = ds, plannedMinutes = mins,
       completed = False, actualMinutes = 0, isFixed = False\<rparr>]"
  by (simp add: mergeTask_def existingAutoTaskIndex_def)

lemma mergeTask_Cons:
  "mergeTask newId ds sid mins (t # ts) =
     (if date t = ds \<and> subjectId t = sid then t\<lparr>plannedMinutes := plannedMinutes t + mins\<rparr> # ts
      else t # mergeTask newId ds sid mins ts)"
  by (simp add: mergeTask_def existingAutoTaskIndex_def split: option.splits)


lemma mergeTask_keys:
  "map taskKey (mergeTask newId ds sid mins ts) =
     (if (sid, ds) \<in> set (map taskKey ts) then map taskKey ts else map taskKey ts @ [(sid, ds)])"
  by (induction ts) (auto simp: mergeTask_Nil mergeTask_Cons taskKey_def)

lemma mergeTask_key_set:
  "taskKey ` set (mergeTask newId ds sid mins ts) = insert (sid, ds) (taskKey ` set ts)"
proof -
  have "set (map taskKey (mergeTask newId ds sid mins ts)) = insert (sid, ds) (set (map taskKey ts))"
    unfolding mergeTask_keys by auto
  then show ?thesis by simp
qed

lemma mergeTask_distinct_keys:
  "distinct (map taskKey ts) \<Longrightarrow> distinct (map taskKey (mergeTask newId ds sid mins ts))"
  unfolding mergeTask_keys by simp

lemma mergeTask_sum:
  "sum_list (map plannedMinutes (filter (\<lambda>t. p (taskKey t)) (mergeTask newId ds sid mins ts))) =
     sum_list (map plannedMinutes (filter (\<lambda>t. p (taskKey t)) ts)) + (if p (sid, ds) then mins else 0)"
  by (induction ts) (auto simp: mergeTask_Nil mergeTask_Cons taskKey_def)

lemma mergeTask_all:
  assumes "\<forall>t\<in>set ts. Q t"
    and "\<And>t. Q t \<Longrightarrow> date t = ds \<Longrightarrow> subjectId t = sid \<Longrightarrow> Q (t\<lparr>plannedMinutes := plannedMinutes t + mins\<rparr>)"
    and "Q \<lparr>t_id = newId, subjectId = sid, date = ds, plannedMinutes = mins,
           completed = False, actualMinutes = 0, isFixed = False\<rparr>"
  shows "\<forall>t\<in>set (mergeTask newId ds sid mins ts). Q t"
  using assms(1)
proof (induction ts)
  case Nil
  then show ?case by (simp add: mergeTask_Nil assms(3))
next
  case (Cons t ts)
  then show ?case by (auto simp: mergeTask_Cons assms(2))
qed

section \<open>Facts about the set of the subjects assigned today\<close>

lemma set_setAdd: "set (setAdd xs x) = insert x (set xs)"
  by (auto simp: setAdd_def)

lemma distinct_setAdd: "distinct xs \<Longrightarrow> distinct (setAdd xs x)"
  by (simp add: setAdd_def)

lemma set_foldl_setAdd: "set (foldl setAdd acc xs) = set acc \<union> set xs"
  by (induction xs arbitrary: acc) (auto simp: set_setAdd)

lemma distinct_foldl_setAdd: "distinct acc \<Longrightarrow> distinct (foldl setAdd acc xs)"
  by (induction xs arbitrary: acc) (auto simp: distinct_setAdd)

lemma set_assignedIdsOf: "set (assignedIdsOf fc ds) = subjectId ` {p \<in> set fc. date p = ds}"
  by (auto simp: assignedIdsOf_def set_foldl_setAdd)

lemma distinct_assignedIdsOf: "distinct (assignedIdsOf fc ds)"
  by (simp add: assignedIdsOf_def distinct_foldl_setAdd)

section \<open>Facts about the queue of the day\<close>

lemma set_insortBy: "set (insortBy cmp x xs) = insert x (set xs)"
  by (induction xs) auto

lemma distinct_insortBy: "distinct (insortBy cmp x xs) = (x \<notin> set xs \<and> distinct xs)"
  by (induction xs) (auto simp: set_insortBy)

lemma set_sortBy: "set (sortBy cmp xs) = set xs"
  unfolding sortBy_def by (induction xs) (auto simp: set_insortBy)

lemma distinct_sortBy: "distinct xs \<Longrightarrow> distinct (sortBy cmp xs)"
  unfolding sortBy_def
proof (induction xs)
  case Nil
  then show ?case by simp
next
  case (Cons x xs)
  have "set (foldr (insortBy cmp) xs []) = set xs"
    using set_sortBy[of cmp xs] by (simp add: sortBy_def)
  with Cons show ?case by (simp add: distinct_insortBy)
qed

definition queueOk :: "string \<Rightarrow> RunState \<Rightarrow> bool" where
  "queueOk ds st =
     (distinct (activeSubjects st) \<and>
      (\<forall>i\<in>set (activeSubjects st). i < length (pendingWork st) \<and> 0 < minutesNeeded (pendingWork st ! i)
          \<and> strLessEq ds (testDate (subject (pendingWork st ! i)))))"

lemma queueOk_dayStart: "queueOk (toLocalDateString (currentDate st)) (dayStart fc st)"
  by (auto simp: queueOk_def dayStart_def Let_def activeSubjectsOf_def set_sortBy intro!: distinct_sortBy)

lemma timeToAllocate_bounds:
  assumes "minutesAllocatedToday st < maxMinutes" "0 < minutesNeeded (pendingWork st ! i)"
  shows "0 < timeToAllocate maxMinutes st i"
    and "timeToAllocate maxMinutes st i \<le> minutesNeeded (pendingWork st ! i)"
    and "timeToAllocate maxMinutes st i \<le> 30"
    and "minutesAllocatedToday st + timeToAllocate maxMinutes st i \<le> maxMinutes"
  using assms by (auto simp: timeToAllocate_def Let_def)

lemma allocateStep_alloc_fields:
  fixes uuid :: "nat \<Rightarrow> string" and dateStr :: string and maxMinutes :: int
  assumes "activeSubjects st = i # rest" "\<not> capBlocks settings st i"
  defines "st' \<equiv> allocateStep uuid settings dateStr maxMinutes st"
  shows "pendingWork st' = (pendingWork st)[i := (pendingWork st ! i)
            \<lparr>minutesNeeded := minutesNeeded (pendingWork st ! i) - timeToAllocate maxMinutes st i\<rparr>]"
    and "newAutoTasks st' = mergeTask (uuid (uuidCalls st)) dateStr (s_id (subject (pendingWork st ! i)))
            (timeToAllocate maxMinutes st i) (newAutoTasks st)"
    and "assignedSubjectIdsToday st' = setAdd (assignedSubjectIdsToday st) (s_id (subject (pendingWork st ! i)))"
    and "minutesAllocatedToday st' = minutesAllocatedToday st + timeToAllocate maxMinutes st i"
    and "activeSubjects st' = (if minutesNeeded (pendingWork st' ! i) \<le> 0 then rest else rest @ [i])"
    and "currentDate st' = currentDate st"
    and "daysCount st' = daysCount st"
  unfolding st'_def by (simp_all add: allocateStep_alloc[OF assms(1,2)])

lemma allocateStep_skip_fields:
  fixes uuid :: "nat \<Rightarrow> string" and dateStr :: string and maxMinutes :: int
  assumes "activeSubjects st = i # rest" "capBlocks settings st i"
  defines "st' \<equiv> allocateStep uuid settings dateStr maxMinutes st"
  shows "pendingWork st' = pendingWork st"
    and "newAutoTasks st' = newAutoTasks st"
    and "assignedSubjectIdsToday st' = assignedSubjectIdsToday st"
    and "minutesAllocatedToday st' = minutesAllocatedToday st"
    and "activeSubjects st' = rest"
    and "currentDate st' = currentDate st"
    and "daysCount st' = daysCount st"
  unfolding st'_def by (simp_all add: allocateStep_skip[OF assms(1,2)])

lemma queueOk_step:
  assumes ok: "queueOk ds st" and q: "activeSubjects st \<noteq> []" and c: "minutesAllocatedToday st < maxMinutes"
  shows "queueOk ds (allocateStep uuid settings dateStr maxMinutes st)"
proof -
  obtain i rest where q: "activeSubjects st = i # rest"
    using q by (cases "activeSubjects st") auto
  show ?thesis
  proof (cases "capBlocks settings st i")
    case True
    show ?thesis
      using ok q by (simp add: queueOk_def allocateStep_skip_fields[OF q True])
  next
    case False
    note f = allocateStep_alloc_fields[OF q False, of uuid dateStr maxMinutes]
    have i: "i < length (pendingWork st)" "i \<notin> set rest" "distinct rest"
      using ok q by (auto simp: queueOk_def)
    have rest: "\<forall>j\<in>set rest. j < length (pendingWork st) \<and> 0 < minutesNeeded (pendingWork st ! j)
          \<and> strLessEq ds (testDate (subject (pendingWork st ! j)))"
      using ok q by (auto simp: queueOk_def)
    have si: "strLessEq ds (testDate (subject (pendingWork st ! i)))"
      using ok q by (auto simp: queueOk_def)
    show ?thesis
      unfolding queueOk_def f using i rest si by (auto simp: nth_list_update)
  qed
qed

lemma allocateStep_keys_mono:
  "k \<in> taskKey ` set (newAutoTasks st) \<Longrightarrow>
   k \<in> taskKey ` set (newAutoTasks (allocateStep uuid settings dateStr maxMinutes st))"
proof (cases "activeSubjects st")
  case Nil
  assume "k \<in> taskKey ` set (newAutoTasks st)"
  then show ?thesis using Nil by (simp add: allocateStep_def)
next
  case (Cons i rest)
  assume k: "k \<in> taskKey ` set (newAutoTasks st)"
  show ?thesis
  proof (cases "capBlocks settings st i")
    case True
    then show ?thesis using k by (simp add: allocateStep_skip_fields[OF Cons True])
  next
    case False
    then show ?thesis
      using k unfolding allocateStep_alloc_fields(2)[OF Cons False] mergeTask_key_set by simp
  qed
qed

section \<open>The run as a sequence of allocations\<close>

text \<open>
  Whatever the order of the queue and the state of the day, the loops change \<open>pendingWork\<close>
  and \<open>newAutoTasks\<close> only by allocations: on the day \<open>k\<close> of the walk, a work item that
  is not past its test date gives between 1 and 30 of the minutes it still needs to the
  task of its subject on that day.
\<close>

lemma scheduleLoop_events:
  fixes R :: "Work list \<Rightarrow> DailyTask list \<Rightarrow> bool"
  assumes init: "R (pendingWork st0) (newAutoTasks st0)"
    and date0: "currentDate st0 = (setDateNext ^^ daysCount st0) today"
    and ev: "\<And>pw tasks i mins newId k.
       R pw tasks \<Longrightarrow> k < MAX_DAYS \<Longrightarrow> i < length pw \<Longrightarrow> 0 < mins \<Longrightarrow> mins \<le> minutesNeeded (pw ! i) \<Longrightarrow>
       mins \<le> 30 \<Longrightarrow> strLessEq (toLocalDateString ((setDateNext ^^ k) today)) (testDate (subject (pw ! i))) \<Longrightarrow>
       R (pw[i := (pw ! i)\<lparr>minutesNeeded := minutesNeeded (pw ! i) - mins\<rparr>])
         (mergeTask newId (toLocalDateString ((setDateNext ^^ k) today)) (s_id (subject (pw ! i))) mins tasks)"
  shows "R (pendingWork (scheduleLoop uuid settings fc st0)) (newAutoTasks (scheduleLoop uuid settings fc st0))"
proof -
  define P where "P s \<longleftrightarrow> R (pendingWork s) (newAutoTasks s)
      \<and> currentDate s = (setDateNext ^^ daysCount s) today" for s :: RunState
  have "P (scheduleLoop uuid settings fc st0)"
  proof (rule scheduleLoop_rule)
    show "P st0" using init date0 by (simp add: P_def)
  next
    fix s assume Ps: "P s" and days: "daysCount s < MAX_DAYS"
    define ds where "ds = toLocalDateString (currentDate s)"
    define mm where "mm = maxMinutesOn settings (currentDate s)"
    define Q where "Q x \<longleftrightarrow> R (pendingWork x) (newAutoTasks x) \<and> queueOk ds x
        \<and> currentDate x = currentDate s \<and> daysCount x = daysCount s" for x :: RunState
    have "Q (allocateLoop uuid settings ds mm (dayStart fc s))"
    proof (rule allocateLoop_rule)
      show "Q (dayStart fc s)"
        using Ps queueOk_dayStart[of s fc] by (simp add: Q_def P_def ds_def) (simp add: dayStart_def Let_def)
    next
      fix x assume Qx: "Q x" and c: "minutesAllocatedToday x < mm" and ne: "activeSubjects x \<noteq> []"
      obtain i rest where q: "activeSubjects x = i # rest"
        using ne by (cases "activeSubjects x") auto
      have ok': "queueOk ds (allocateStep uuid settings ds mm x)"
        using Qx ne c by (intro queueOk_step) (auto simp: Q_def)
      show "Q (allocateStep uuid settings ds mm x)"
      proof (cases "capBlocks settings x i")
        case True
        show ?thesis
          using Qx ok' by (simp add: Q_def allocateStep_skip_fields[OF q True])
      next
        case False
        note f = allocateStep_alloc_fields[OF q False, of uuid ds mm]
        have i: "i < length (pendingWork x)" "0 < minutesNeeded (pendingWork x ! i)"
          "strLessEq ds (testDate (subject (pendingWork x ! i)))"
          using Qx q by (auto simp: Q_def queueOk_def)
        have dk: "ds = toLocalDateString ((setDateNext ^^ daysCount s) today)"
          using Ps by (simp add: ds_def P_def)
        have "R ((pendingWork x)[i := (pendingWork x ! i)
                  \<lparr>minutesNeeded := minutesNeeded (pendingWork x ! i) - timeToAllocate mm x i\<rparr>])
                (mergeTask (uuid (uuidCalls x)) (toLocalDateString ((setDateNext ^^ daysCount s) today))
                  (s_id (subject (pendingWork x ! i))) (timeToAllocate mm x i) (newAutoTasks x))"
        proof (rule ev)
          show "R (pendingWork x) (newAutoTasks x)" using Qx by (simp add: Q_def)
          show "daysCount s < MAX_DAYS" by (rule days)
          show "i < length (pendingWork x)" by (rule i(1))
          show "0 < timeToAllocate mm x i" "timeToAllocate mm x i \<le> minutesNeeded (pendingWork x ! i)"
            "timeToAllocate mm x i \<le> 30"
            using timeToAllocate_bounds[OF c i(2)] by auto
          show "strLessEq (toLocalDateString ((setDateNext ^^ daysCount s) today))
                  (testDate (subject (pendingWork x ! i)))"
            using i(3) by (simp add: dk)
        qed
        then have "R (pendingWork (allocateStep uuid settings ds mm x)) (newAutoTasks (allocateStep uuid settings ds mm x))"
          unfolding f(1,2) by (simp add: dk)
        then show ?thesis
          using Qx ok' by (simp add: Q_def f(6,7))
      qed
    qed
    then show "P (dayStep uuid settings fc s)"
      using Ps by (simp add: P_def Q_def dayStep_def Let_def ds_def mm_def)
  qed
  then show ?thesis by (simp add: P_def)
qed

lemma generatedTasks_events:
  fixes R :: "Work list \<Rightarrow> DailyTask list \<Rightarrow> bool"
  assumes "R (initialPendingWork subjects (fixedOrCompletedTasks schedule)) []"
    and "\<And>pw tasks i mins newId k.
       R pw tasks \<Longrightarrow> k < MAX_DAYS \<Longrightarrow> i < length pw \<Longrightarrow> 0 < mins \<Longrightarrow> mins \<le> minutesNeeded (pw ! i) \<Longrightarrow>
       mins \<le> 30 \<Longrightarrow> strLessEq (toLocalDateString ((setDateNext ^^ k) today)) (testDate (subject (pw ! i))) \<Longrightarrow>
       R (pw[i := (pw ! i)\<lparr>minutesNeeded := minutesNeeded (pw ! i) - mins\<rparr>])
         (mergeTask newId (toLocalDateString ((setDateNext ^^ k) today)) (s_id (subject (pw ! i))) mins tasks)"
  shows "R (pendingWork (finalState uuid today subjects schedule settings))
           (generatedTasks uuid today subjects schedule settings)"
  unfolding generatedTasks_def finalState_def
  by (rule scheduleLoop_events[where today = today]) (simp_all add: initialState_def assms)

subsection \<open>Invariants that depend on the day\<close>

text \<open>
  A rule for invariants of the whole state: \<open>P\<close> holds at the head of the outer loop,
  \<open>Q D\<close> inside the day \<open>D\<close>, from the declarations at the start of the body to the end of
  the inner loop.
\<close>

lemma scheduleLoop_days:
  fixes P :: "RunState \<Rightarrow> bool" and Q :: "JsDate \<Rightarrow> RunState \<Rightarrow> bool"
  assumes init: "P st0"
    and start: "\<And>s. P s \<Longrightarrow> daysCount s < MAX_DAYS \<Longrightarrow> Q (currentDate s) (dayStart fc s)"
    and skip: "\<And>D x i rest. Q D x \<Longrightarrow> activeSubjects x = i # rest \<Longrightarrow> capBlocks settings x i \<Longrightarrow>
        Q D (x\<lparr>activeSubjects := rest\<rparr>)"
    and alloc: "\<And>D x i rest. Q D x \<Longrightarrow> queueOk (toLocalDateString D) x \<Longrightarrow>
        minutesAllocatedToday x < maxMinutesOn settings D \<Longrightarrow> activeSubjects x = i # rest \<Longrightarrow>
        \<not> capBlocks settings x i \<Longrightarrow>
        Q D (allocateStep uuid settings (toLocalDateString D) (maxMinutesOn settings D) x)"
    and fin: "\<And>D x. Q D x \<Longrightarrow> currentDate x = D \<Longrightarrow>
        P (x\<lparr>currentDate := setDateNext D, daysCount := daysCount x + 1\<rparr>)"
  shows "P (scheduleLoop uuid settings fc st0)"
proof (rule scheduleLoop_rule)
  show "P st0" by (rule init)
next
  fix s assume Ps: "P s" and days: "daysCount s < MAX_DAYS"
  define D where "D = currentDate s"
  define I where "I x \<longleftrightarrow> Q D x \<and> queueOk (toLocalDateString D) x \<and> currentDate x = D" for x :: RunState
  have "I (allocateLoop uuid settings (toLocalDateString D) (maxMinutesOn settings D) (dayStart fc s))"
  proof (rule allocateLoop_rule)
    show "I (dayStart fc s)"
      using start[OF Ps days] queueOk_dayStart[of s fc]
      by (simp add: I_def D_def) (simp add: dayStart_def Let_def)
  next
    fix x assume Ix: "I x" and c: "minutesAllocatedToday x < maxMinutesOn settings D"
      and ne: "activeSubjects x \<noteq> []"
    obtain i rest where q: "activeSubjects x = i # rest"
      using ne by (cases "activeSubjects x") auto
    have ok': "queueOk (toLocalDateString D) (allocateStep uuid settings (toLocalDateString D) (maxMinutesOn settings D) x)"
      using Ix ne c by (intro queueOk_step) (auto simp: I_def)
    show "I (allocateStep uuid settings (toLocalDateString D) (maxMinutesOn settings D) x)"
    proof (cases "capBlocks settings x i")
      case True
      have "Q D (x\<lparr>activeSubjects := rest\<rparr>)"
        using Ix q True by (intro skip) (auto simp: I_def)
      then show ?thesis
        using Ix ok' by (simp add: I_def allocateStep_skip[OF q True])
    next
      case False
      have "Q D (allocateStep uuid settings (toLocalDateString D) (maxMinutesOn settings D) x)"
        using Ix q False c by (intro alloc) (auto simp: I_def)
      then show ?thesis
        using Ix ok' by (simp add: I_def allocateStep_alloc_fields(6)[OF q False])
    qed
  qed
  then show "P (dayStep uuid settings fc s)"
    using fin[of D "allocateLoop uuid settings (toLocalDateString D) (maxMinutesOn settings D) (dayStart fc s)"]
    by (simp add: I_def dayStep_def Let_def D_def)
qed

section \<open>Properties of every run\<close>

definition freshTask :: "DailyTask \<Rightarrow> bool" where
  "freshTask t = (0 < plannedMinutes t \<and> \<not> completed t \<and> \<not> isFixed t)"

lemma generatedTasks_fresh:
  "\<forall>t\<in>set (generatedTasks uuid today subjects schedule settings). freshTask t"
proof -
  define R :: "Work list \<Rightarrow> DailyTask list \<Rightarrow> bool" where "R pw tasks \<longleftrightarrow> (\<forall>t\<in>set tasks. freshTask t)" for pw tasks
  have "R (pendingWork (finalState uuid today subjects schedule settings))
          (generatedTasks uuid today subjects schedule settings)"
  proof (rule generatedTasks_events)
    show "R (initialPendingWork subjects (fixedOrCompletedTasks schedule)) []"
      by (simp add: R_def)
  next
    fix pw tasks i mins newId k
    assume "R pw tasks" "0 < (mins::int)"
    then show "R (pw[i := (pw ! i)\<lparr>minutesNeeded := minutesNeeded (pw ! i) - mins\<rparr>])
         (mergeTask newId (toLocalDateString ((setDateNext ^^ k) today)) (s_id (subject (pw ! i))) mins tasks)"
      unfolding R_def by (intro mergeTask_all) (auto simp: freshTask_def)
  qed
  then show ?thesis by (simp add: R_def)
qed

lemma generatedTasks_distinct_keys:
  "distinct (map taskKey (generatedTasks uuid today subjects schedule settings))"
proof -
  define R :: "Work list \<Rightarrow> DailyTask list \<Rightarrow> bool" where "R pw tasks \<longleftrightarrow> distinct (map taskKey tasks)" for pw tasks
  have "R (pendingWork (finalState uuid today subjects schedule settings))
          (generatedTasks uuid today subjects schedule settings)"
    by (rule generatedTasks_events) (simp_all add: R_def mergeTask_distinct_keys)
  then show ?thesis by (simp add: R_def)
qed

lemma fixedOrCompleted_generated:
  "fixedOrCompletedTasks (fixedOrCompletedTasks schedule @ generatedTasks uuid today subjects schedule settings)
     = fixedOrCompletedTasks schedule"
proof -
  have "filter (\<lambda>t. isFixed t \<or> completed t) (generatedTasks uuid today subjects schedule settings) = []"
    using generatedTasks_fresh[of uuid today subjects schedule settings]
    by (auto simp: filter_empty_conv freshTask_def)
  then show ?thesis by (simp add: fixedOrCompletedTasks_def)
qed

lemma generatedTasks_no_subjects: "generatedTasks uuid today [] schedule settings = []"
  by (simp add: generatedTasks_def finalState_def initialState_def initialPendingWork_def scheduleLoop.simps)

lemma generatedTasks_preserved_only:
  "fixedOrCompletedTasks a = fixedOrCompletedTasks b \<Longrightarrow>
   generatedTasks uuid today subjects a settings = generatedTasks uuid today subjects b settings"
  by (simp add: generatedTasks_def finalState_def)

lemma fixedOrCompleted_generateSchedule:
  "fixedOrCompletedTasks (generateSchedule uuid today subjects schedule settings) = fixedOrCompletedTasks schedule"
  by (simp add: generateSchedule_def fixedOrCompleted_generated)


section \<open>Date strings\<close>

subsection \<open>The order of strings\<close>

lemma strLess_irrefl: "\<not> strLess a a"
  by (induction a) auto

lemma strLess_trans: "strLess a b \<Longrightarrow> strLess b c \<Longrightarrow> strLess a c"
proof (induction a b arbitrary: c rule: strLess.induct)
  case 1
  then show ?case by simp
next
  case (2 y ys)
  then show ?case by (cases c) auto
next
  case (3 x xs)
  then show ?case by simp
next
  case (4 x xs y ys)
  then show ?case by (cases c) (auto split: if_splits)
qed

lemma strLess_asym: "strLess a b \<Longrightarrow> \<not> strLess b a"
  using strLess_trans strLess_irrefl by blast

lemma strLessEq_not_less: "strLessEq a b \<Longrightarrow> \<not> strLess b a"
  using strLess_asym strLess_irrefl by (auto simp: strLessEq_def)

lemma strLessEq_trans: "strLessEq a b \<Longrightarrow> strLessEq b c \<Longrightarrow> strLessEq a c"
  using strLess_trans by (auto simp: strLessEq_def)

subsection \<open>Decimal digits\<close>

fun fixedDigits :: "nat \<Rightarrow> nat \<Rightarrow> string" where
  "fixedDigits 0 n = []"
| "fixedDigits (Suc w) n = fixedDigits w (n div 10) @ [digitChar (n mod 10)]"

lemma of_char_digitChar: "a < 10 \<Longrightarrow> of_char (digitChar a) = 48 + a"
  by (simp add: digitChar_def)

lemma digitChar_eq: "a < 10 \<Longrightarrow> b < 10 \<Longrightarrow> digitChar a = digitChar b \<longleftrightarrow> a = b"
proof
  assume "a < 10" "b < 10" "digitChar a = digitChar b"
  then have "(of_char (digitChar a) :: nat) = of_char (digitChar b)" by simp
  then show "a = b" using \<open>a < 10\<close> \<open>b < 10\<close> by (simp add: of_char_digitChar)
qed simp

lemma strLess_append_same: "strLess (zs @ xs) (zs @ ys) = strLess xs ys"
  by (induction zs) auto

lemma strLess_fixedDigits:
  "n < 10 ^ w \<Longrightarrow> m < 10 ^ w \<Longrightarrow>
   strLess (fixedDigits w n @ xs) (fixedDigits w m @ ys) = (n < m \<or> (n = m \<and> strLess xs ys))"
proof (induction w arbitrary: n m xs ys)
  case 0
  then show ?case by simp
next
  case (Suc w)
  have d: "n div 10 < 10 ^ w" "m div 10 < 10 ^ w"
    using Suc.prems by (simp_all add: less_mult_imp_div_less mult.commute)
  have r: "n mod 10 < 10" "m mod 10 < 10" by simp_all
  have "strLess (fixedDigits (Suc w) n @ xs) (fixedDigits (Suc w) m @ ys)
      = (n div 10 < m div 10 \<or> (n div 10 = m div 10 \<and>
          (n mod 10 < m mod 10 \<or> (n mod 10 = m mod 10 \<and> strLess xs ys))))"
    using Suc.IH[OF d] r by (simp add: of_char_digitChar digitChar_eq)
  also have "\<dots> = (n < m \<or> (n = m \<and> strLess xs ys))"
  proof -
    have n: "n = 10 * (n div 10) + n mod 10" and m: "m = 10 * (m div 10) + m mod 10" by simp_all
    have "n < m \<longleftrightarrow> n div 10 < m div 10 \<or> (n div 10 = m div 10 \<and> n mod 10 < m mod 10)"
      using r by (subst n, subst m) arith
    moreover have "n = m \<longleftrightarrow> n div 10 = m div 10 \<and> n mod 10 = m mod 10"
      by (metis n m)
    ultimately show ?thesis by blast
  qed
  finally show ?case .
qed

lemma showNat_fixedDigits: "0 < w \<Longrightarrow> 10 ^ (w - 1) \<le> n \<or> w = 1 \<Longrightarrow> n < 10 ^ w \<Longrightarrow> showNat n = fixedDigits w n"
proof (induction w arbitrary: n)
  case 0
  then show ?case by simp
next
  case (Suc w)
  show ?case
  proof (cases "w = 0")
    case True
    then show ?thesis using Suc.prems by (subst showNat.simps) simp
  next
    case False
    then have w: "0 < w" by simp
    have ge: "10 ^ w \<le> n" using Suc.prems False by auto
    have "10 ^ 1 \<le> (10::nat) ^ w" using w by (intro power_increasing) auto
    then have n10: "\<not> n < 10" using ge by simp
    have lo: "10 ^ (w - 1) \<le> n div 10"
    proof -
      have "10 ^ w = 10 * (10::nat) ^ (w - 1)" using w by (cases w) auto
      then have "10 * 10 ^ (w - 1) \<le> n" using ge by simp
      then show ?thesis by simp
    qed
    have hi: "n div 10 < 10 ^ w"
      using Suc.prems(3) by (simp add: less_mult_imp_div_less mult.commute)
    have "showNat (n div 10) = fixedDigits w (n div 10)"
      using w lo hi by (intro Suc.IH) auto
    then show ?thesis using n10 by (subst showNat.simps) simp
  qed
qed

lemma digitChar_0: "digitChar 0 = CHR ''0''"
  by code_simp

lemma padStart2_showNat: "n < 100 \<Longrightarrow> padStart2 (showNat n) = fixedDigits 2 n"
proof (cases "n < 10")
  case True
  then have "showNat n = [digitChar n]" by (subst showNat.simps) simp
  then show ?thesis using True by (simp add: padStart2_def numeral_2_eq_2 digitChar_0[symmetric])
next
  case False
  assume "n < 100"
  then have "showNat n = fixedDigits 2 n"
    using False by (intro showNat_fixedDigits) auto
  moreover have "length (fixedDigits 2 n) = 2" by (simp add: numeral_2_eq_2)
  ultimately show ?thesis by (simp add: padStart2_def)
qed

subsection \<open>The days of the walk\<close>

definition dateLess :: "JsDate \<Rightarrow> JsDate \<Rightarrow> bool" where
  "dateLess a b =
     (getFullYear a < getFullYear b
      \<or> (getFullYear a = getFullYear b
          \<and> (getMonth a < getMonth b \<or> (getMonth a = getMonth b \<and> getDate a < getDate b))))"

definition fourDigitYear :: "JsDate \<Rightarrow> bool" where
  "fourDigitYear d = (1000 \<le> getFullYear d \<and> getFullYear d \<le> 9999)"

lemma dateLess_trans: "dateLess a b \<Longrightarrow> dateLess b c \<Longrightarrow> dateLess a c"
  by (auto simp: dateLess_def)

lemma dateLess_irrefl: "\<not> dateLess a a"
  by (simp add: dateLess_def)

lemma dateLess_setDateNext: "dateLess d (setDateNext d)"
  by (simp add: dateLess_def setDateNext_def)

lemma dateLess_funpow: "dateLess d ((setDateNext ^^ Suc k) d)"
proof (induction k)
  case 0
  then show ?case by (simp add: dateLess_setDateNext)
next
  case (Suc k)
  then show ?case
    using dateLess_setDateNext[of "(setDateNext ^^ Suc k) d"] dateLess_trans by auto
qed

lemma daysInMonth_pos: "28 \<le> daysInMonth y m" "daysInMonth y m \<le> 31"
  by (simp_all add: daysInMonth_def)

lemma validDate_setDateNext: "validDate d \<Longrightarrow> validDate (setDateNext d)"
  using daysInMonth_pos(1)[of "getFullYear d" "Suc (getMonth d)"]
    daysInMonth_pos(1)[of "Suc (getFullYear d)" 0]
  by (auto simp: validDate_def setDateNext_def)

lemma validDate_funpow: "validDate d \<Longrightarrow> validDate ((setDateNext ^^ k) d)"
  by (induction k) (auto simp: validDate_setDateNext)

lemma year_setDateNext:
  "getFullYear d \<le> getFullYear (setDateNext d)" "getFullYear (setDateNext d) \<le> getFullYear d + 1"
  by (simp_all add: setDateNext_def)

lemma year_funpow:
  "getFullYear d \<le> getFullYear ((setDateNext ^^ k) d) \<and> getFullYear ((setDateNext ^^ k) d) \<le> getFullYear d + k"
proof (induction k)
  case 0
  then show ?case by simp
next
  case (Suc k)
  then show ?case
    using year_setDateNext[of "(setDateNext ^^ k) d"] by auto
qed

lemma fourDigitYear_funpow:
  "1000 \<le> getFullYear d \<Longrightarrow> getFullYear d + k \<le> 9999 \<Longrightarrow> fourDigitYear ((setDateNext ^^ k) d)"
  using year_funpow[of d k] by (simp add: fourDigitYear_def)

lemma toLocalDateString_fixed:
  assumes "validDate d" "fourDigitYear d"
  shows "toLocalDateString d =
     fixedDigits 4 (getFullYear d) @ CHR ''-'' # fixedDigits 2 (getMonth d + 1) @ CHR ''-'' # fixedDigits 2 (getDate d) @ []"
proof -
  have y: "showNat (getFullYear d) = fixedDigits 4 (getFullYear d)"
    using assms(2) by (intro showNat_fixedDigits) (auto simp: fourDigitYear_def)
  have m: "padStart2 (showNat (getMonth d + 1)) = fixedDigits 2 (getMonth d + 1)"
    using assms(1) by (intro padStart2_showNat) (auto simp: validDate_def)
  have "getDate d \<le> 31"
    using assms(1) daysInMonth_pos(2)[of "getFullYear d" "getMonth d"] by (auto simp: validDate_def)
  then have dd: "padStart2 (showNat (getDate d)) = fixedDigits 2 (getDate d)"
    by (intro padStart2_showNat) auto
  show ?thesis
    unfolding toLocalDateString_def y m dd by simp
qed

lemma toLocalDateString_less:
  assumes "validDate a" "fourDigitYear a" "validDate b" "fourDigitYear b"
  shows "strLess (toLocalDateString a) (toLocalDateString b) = dateLess a b"
proof -
  have y: "getFullYear a < 10 ^ 4" "getFullYear b < 10 ^ 4"
    using assms(2,4) by (simp_all add: fourDigitYear_def)
  have m: "getMonth a + 1 < 10 ^ 2" "getMonth b + 1 < 10 ^ 2"
    using assms(1,3) by (simp_all add: validDate_def)
  have d: "getDate a < 10 ^ 2" "getDate b < 10 ^ 2"
    using assms(1,3) daysInMonth_pos(2)[of "getFullYear a" "getMonth a"]
      daysInMonth_pos(2)[of "getFullYear b" "getMonth b"] by (simp_all add: validDate_def)
  have dash: "strLess (CHR ''-'' # xs) (CHR ''-'' # ys) = strLess xs ys" for xs ys
    by simp
  have "strLess (toLocalDateString a) (toLocalDateString b)
      = (getFullYear a < getFullYear b \<or> (getFullYear a = getFullYear b \<and>
          (getMonth a + 1 < getMonth b + 1 \<or> (getMonth a + 1 = getMonth b + 1 \<and>
            (getDate a < getDate b \<or> (getDate a = getDate b \<and> strLess [] []))))))"
    unfolding toLocalDateString_fixed[OF assms(1,2)] toLocalDateString_fixed[OF assms(3,4)]
      strLess_fixedDigits[OF y] dash strLess_fixedDigits[OF m] strLess_fixedDigits[OF d] ..
  then show ?thesis
    by (simp add: dateLess_def)
qed

lemma toLocalDateString_walk:
  assumes "validDate today" "\<forall>k<MAX_DAYS. fourDigitYear ((setDateNext ^^ k) today)" "k < MAX_DAYS"
  shows "strLessEq (toLocalDateString today) (toLocalDateString ((setDateNext ^^ k) today))"
proof (cases k)
  case 0
  then show ?thesis by (simp add: strLessEq_def)
next
  case (Suc j)
  have f: "fourDigitYear ((setDateNext ^^ i) today)" if "i < MAX_DAYS" for i
    using assms(2) that by blast
  have f0: "fourDigitYear today"
    using f[of 0] by (simp add: MAX_DAYS_def)
  have less: "dateLess today ((setDateNext ^^ k) today)"
    unfolding Suc by (rule dateLess_funpow)
  have "strLess (toLocalDateString today) (toLocalDateString ((setDateNext ^^ k) today))"
    unfolding toLocalDateString_less[OF assms(1) f0 validDate_funpow[OF assms(1)] f[OF assms(3)]]
    by (rule less)
  then show ?thesis by (simp add: strLessEq_def)
qed

subsection \<open>A date string names one day\<close>

definition readNat :: "string \<Rightarrow> nat" where
  "readNat s = foldl (\<lambda>a c. 10 * a + (of_char c - 48)) 0 s"

lemma readNat_snoc: "readNat (xs @ [c]) = 10 * readNat xs + (of_char c - 48)"
  by (simp add: readNat_def)

lemma readNat_showNat: "readNat (showNat n) = n"
proof (induction n rule: showNat.induct)
  case (1 n)
  show ?case
  proof (cases "n < 10")
    case True
    then show ?thesis
      by (subst showNat.simps) (simp add: readNat_def of_char_digitChar)
  next
    case False
    then have "readNat (showNat (n div 10)) = n div 10" using 1 by simp
    then show ?thesis
      using False by (subst showNat.simps) (simp add: readNat_snoc of_char_digitChar)
  qed
qed

lemma readNat_zeros: "readNat (replicate k CHR ''0'' @ s) = readNat s"
proof -
  have "foldl (\<lambda>a c. 10 * a + (of_char c - 48)) (0::nat) (replicate k CHR ''0'') = 0"
    by (induction k) simp_all
  then show ?thesis by (simp add: readNat_def)
qed

lemma readNat_padStart2: "readNat (padStart2 (showNat n)) = n"
  by (simp add: padStart2_def readNat_zeros readNat_showNat)

lemma digitChar_not_dash: "a < 10 \<Longrightarrow> digitChar a \<noteq> CHR ''-''"
proof
  assume "a < 10" "digitChar a = CHR ''-''"
  then have "(of_char (digitChar a) :: nat) = of_char CHR ''-''" by simp
  then show False using \<open>a < 10\<close> by (simp add: of_char_digitChar)
qed

lemma showNat_no_dash: "CHR ''-'' \<notin> set (showNat n)"
proof (induction n rule: showNat.induct)
  case (1 n)
  show ?case
  proof (cases "n < 10")
    case True
    then show ?thesis
      using digitChar_not_dash[of n] by (subst showNat.simps) auto
  next
    case False
    then show ?thesis
      using 1 digitChar_not_dash[of "n mod 10"] by (subst showNat.simps) auto
  qed
qed

lemma padStart2_no_dash: "CHR ''-'' \<notin> set (padStart2 (showNat n))"
  using showNat_no_dash[of n] by (auto simp: padStart2_def)

lemma split_at_dash:
  assumes "CHR ''-'' \<notin> set a" "CHR ''-'' \<notin> set a'" "a @ CHR ''-'' # b = a' @ CHR ''-'' # b'"
  shows "a = a' \<and> b = b'"
proof -
  have "takeWhile (\<lambda>c. c \<noteq> CHR ''-'') (a @ CHR ''-'' # b) = a"
    using assms(1) by (subst takeWhile_append2) auto
  moreover have "takeWhile (\<lambda>c. c \<noteq> CHR ''-'') (a' @ CHR ''-'' # b') = a'"
    using assms(2) by (subst takeWhile_append2) auto
  ultimately have "a = a'" using assms(3) by simp
  then show ?thesis using assms(3) by simp
qed

lemma toLocalDateString_inj: "toLocalDateString a = toLocalDateString b \<Longrightarrow> a = b"
proof -
  assume e: "toLocalDateString a = toLocalDateString b"
  have 1: "showNat (getFullYear a) = showNat (getFullYear b)
      \<and> padStart2 (showNat (getMonth a + 1)) @ CHR ''-'' # padStart2 (showNat (getDate a))
        = padStart2 (showNat (getMonth b + 1)) @ CHR ''-'' # padStart2 (showNat (getDate b))"
    using e unfolding toLocalDateString_def
    by (intro split_at_dash) (simp_all add: showNat_no_dash)
  then have 2: "padStart2 (showNat (getMonth a + 1)) = padStart2 (showNat (getMonth b + 1))
      \<and> padStart2 (showNat (getDate a)) = padStart2 (showNat (getDate b))"
    by (intro split_at_dash) (simp_all add: padStart2_no_dash)
  have "getFullYear a = getFullYear b"
    using 1 readNat_showNat by metis
  moreover have "getMonth a + 1 = getMonth b + 1"
    using 2 readNat_padStart2 by metis
  moreover have "getDate a = getDate b"
    using 2 readNat_padStart2 by metis
  ultimately show "a = b" by simp
qed

section \<open>Examples\<close>

text \<open>
  The inputs of the witnesses and counterexamples below. Today is Monday 2 November 2026.
  Subject \<open>A\<close> has difficulty 1 (180 minutes) and its test on 12 November; \<open>exDone\<close> is
  a completed task of \<open>A\<close> today, with 120 planned and 170 actual minutes, so that \<open>A\<close>
  still needs 10 minutes. \<open>exUuid\<close> and \<open>exUuid2\<close> are two sequences of identifiers.
\<close>

definition exToday :: JsDate where
  "exToday = \<lparr>getFullYear = 2026, getMonth = 10, getDate = 2\<rparr>"

definition exSubject :: Subject where
  "exSubject = \<lparr>s_id = ''A'', s_name = ''Math'', difficulty = 1, testDate = ''2026-11-12'', color = ''bg-red-200''\<rparr>"

definition exSubjectB :: Subject where
  "exSubjectB = \<lparr>s_id = ''B'', s_name = ''Physics'', difficulty = 1, testDate = ''2026-11-12'', color = ''bg-teal-200''\<rparr>"

definition exPast :: Subject where
  "exPast = \<lparr>s_id = ''P'', s_name = ''History'', difficulty = 2, testDate = ''2026-11-01'', color = ''bg-sky-200''\<rparr>"

definition exDone :: DailyTask where
  "exDone = \<lparr>t_id = ''d1'', subjectId = ''A'', date = ''2026-11-02'', plannedMinutes = 120,
              completed = True, actualMinutes = 170, isFixed = False\<rparr>"

definition exDone30 :: DailyTask where
  "exDone30 = \<lparr>t_id = ''d2'', subjectId = ''A'', date = ''2026-11-01'', plannedMinutes = 120,
              completed = True, actualMinutes = 150, isFixed = False\<rparr>"


definition exBig :: DailyTask where
  "exBig = \<lparr>t_id = ''d4'', subjectId = ''A'', date = ''2026-11-02'', plannedMinutes = 240,
              completed = True, actualMinutes = 240, isFixed = False\<rparr>"

definition exBigB :: DailyTask where
  "exBigB = \<lparr>t_id = ''d5'', subjectId = ''B'', date = ''2026-11-02'', plannedMinutes = 60,
              completed = True, actualMinutes = 200, isFixed = False\<rparr>"


definition exSettings :: UserSettings where
  "exSettings = \<lparr>weekdayHours = 3, weekendHours = 5, maxSubjectsPerDay = 3\<rparr>"

definition exCapZero :: UserSettings where
  "exCapZero = \<lparr>weekdayHours = 3, weekendHours = 5, maxSubjectsPerDay = 0\<rparr>"

definition exDefault :: UserSettings where
  "exDefault = \<lparr>weekdayHours = 2, weekendHours = 5, maxSubjectsPerDay = 3\<rparr>"

definition exCap1 :: UserSettings where
  "exCap1 = \<lparr>weekdayHours = 2, weekendHours = 5, maxSubjectsPerDay = 1\<rparr>"

definition exUuid :: "nat \<Rightarrow> string" where
  "exUuid n = CHR ''u'' # showNat n"

definition exUuid2 :: "nat \<Rightarrow> string" where
  "exUuid2 n = CHR ''v'' # showNat n"

definition exWork :: "int \<Rightarrow> Work" where
  "exWork n = \<lparr>subject = exSubject, minutesNeeded = n\<rparr>"

definition exNew :: "string \<Rightarrow> DailyTask" where
  "exNew newId = \<lparr>t_id = newId, subjectId = ''A'', date = ''2026-11-02'', plannedMinutes = 10,
       completed = False, actualMinutes = 0, isFixed = False\<rparr>"

lemma exToday_string: "toLocalDateString exToday = ''2026-11-02''"
  by code_simp

lemma exToday_minutes: "maxMinutesOn exSettings exToday = 180"
  by code_simp

lemma exCapZero_minutes: "maxMinutesOn exCapZero exToday = 180"
  by code_simp

lemma exDefault_minutes: "maxMinutesOn exDefault exToday = 120"
  by code_simp

lemma exToday_valid: "validDate exToday"
  by (simp add: validDate_def exToday_def daysInMonth_def)

lemma exToday_horizon: "\<forall>k<MAX_DAYS. fourDigitYear ((setDateNext ^^ k) exToday)"
  by (auto intro!: fourDigitYear_funpow simp: exToday_def MAX_DAYS_def)

subsection \<open>A scenario without preserved tasks\<close>

text \<open>
  One subject of difficulty 2 (360 minutes), two hours on a weekday, starting on a Monday:
  three tasks of 120 minutes, on Monday, Tuesday and Wednesday, each merged from four
  slots of 30 minutes.
\<close>

lemma scenario_one_subject:
  "map (\<lambda>t. (date t, plannedMinutes t))
     (generateSchedule exUuid exToday [exSubject\<lparr>difficulty := 2\<rparr>] [] exDefault)
   = [(''2026-11-02'', 120), (''2026-11-03'', 120), (''2026-11-04'', 120)]"
  by code_simp

subsection \<open>The run on the completed task of today\<close>

text \<open>
  With \<open>exDone\<close> preserved and a capacity of 180 minutes today, the run makes one
  allocation, of 10 minutes, today, whatever \<open>maxSubjectsPerDay\<close> is.
\<close>

lemma exPreserved: "fixedOrCompletedTasks [exDone] = [exDone]"
  by (simp add: fixedOrCompletedTasks_def exDone_def)

lemma exPending: "initialPendingWork [exSubject] [exDone] = [exWork 10]"
  by (simp add: initialPendingWork_def exDone_def exSubject_def allocatedMins_def
        calculateTotalHoursNeeded_def exWork_def)

lemma exQueue: "activeSubjectsOf ''2026-11-02'' [exWork 10] = [0]"
  by (simp add: activeSubjectsOf_def sortBy_def exSubject_def strLessEq_def exWork_def)

lemma exStart:
  "dayStart [exDone] (initialState exToday [exWork 10]) =
     \<lparr>pendingWork = [exWork 10], newAutoTasks = [], uuidCalls = 0, currentDate = exToday, daysCount = 0,
      assignedSubjectIdsToday = [''A''], minutesAllocatedToday = 120, activeSubjects = [0]\<rparr>"
  by (simp add: dayStart_def initialState_def exToday_string exQueue assignedIdsOf_def existingMinsToday_def
        exDone_def setAdd_def)

lemma exStep:
  "allocateStep u settings ''2026-11-02'' 180
     \<lparr>pendingWork = [exWork 10], newAutoTasks = [], uuidCalls = 0, currentDate = exToday, daysCount = 0,
      assignedSubjectIdsToday = [''A''], minutesAllocatedToday = 120, activeSubjects = [0]\<rparr> =
     \<lparr>pendingWork = [exWork 0], newAutoTasks = [exNew (u 0)], uuidCalls = 1, currentDate = exToday, daysCount = 0,
      assignedSubjectIdsToday = [''A''], minutesAllocatedToday = 130, activeSubjects = []\<rparr>"
  by (simp add: allocateStep_def capBlocks_def timeToAllocate_def mergeTask_def existingAutoTaskIndex_def
        exWork_def exSubject_def exNew_def setAdd_def Let_def)

lemma exLoop:
  "allocateLoop u settings ''2026-11-02'' 180
     \<lparr>pendingWork = [exWork 10], newAutoTasks = [], uuidCalls = 0, currentDate = exToday, daysCount = 0,
      assignedSubjectIdsToday = [''A''], minutesAllocatedToday = 120, activeSubjects = [0]\<rparr> =
     \<lparr>pendingWork = [exWork 0], newAutoTasks = [exNew (u 0)], uuidCalls = 1, currentDate = exToday, daysCount = 0,
      assignedSubjectIdsToday = [''A''], minutesAllocatedToday = 130, activeSubjects = []\<rparr>"
  apply (subst allocateLoop.simps)
  apply (simp add: exStep)
  apply (subst allocateLoop.simps)
  apply simp
  done

lemma exDay:
  assumes "maxMinutesOn settings exToday = 180"
  shows "dayStep u settings [exDone] (initialState exToday [exWork 10]) =
     \<lparr>pendingWork = [exWork 0], newAutoTasks = [exNew (u 0)], uuidCalls = 1,
      currentDate = setDateNext exToday, daysCount = 1,
      assignedSubjectIdsToday = [''A''], minutesAllocatedToday = 130, activeSubjects = []\<rparr>"
  by (simp add: dayStep_def Let_def initialState_currentDate exToday_string assms exStart exLoop)

lemma exFinal:
  assumes "maxMinutesOn settings exToday = 180"
  shows "finalState u exToday [exSubject] [exDone] settings =
     \<lparr>pendingWork = [exWork 0], newAutoTasks = [exNew (u 0)], uuidCalls = 1,
      currentDate = setDateNext exToday, daysCount = 1,
      assignedSubjectIdsToday = [''A''], minutesAllocatedToday = 130, activeSubjects = []\<rparr>"
proof -
  have c: "list_ex (\<lambda>w. 0 < minutesNeeded w) (pendingWork (initialState exToday [exWork 10]))
        \<and> daysCount (initialState exToday [exWork 10]) < MAX_DAYS"
    by (simp add: initialState_def exWork_def MAX_DAYS_def)
  show ?thesis
    unfolding finalState_def exPreserved exPending
    apply (subst scheduleLoop.simps)
    apply (simp only: c if_True simp_thms exDay[OF assms])
    apply (subst scheduleLoop.simps)
    apply (simp add: exWork_def)
    done
qed

lemma exRun:
  assumes "maxMinutesOn settings exToday = 180"
  shows "generatedTasks u exToday [exSubject] [exDone] settings = [exNew (u 0)]"
  by (simp add: generatedTasks_def exFinal[OF assms])

lemma exSchedule:
  assumes "maxMinutesOn settings exToday = 180"
  shows "generateSchedule u exToday [exSubject] [exDone] settings = [exDone, exNew (u 0)]"
  by (simp add: generateSchedule_def exPreserved exRun[OF assms])

subsection \<open>Preserved tasks that cover the needs\<close>

text \<open>
  \<open>exBig\<close> and \<open>exBigB\<close> are completed tasks of \<open>A\<close> and \<open>B\<close> today, of 240 and 200
  actual minutes: no subject needs minutes, and the run generates nothing.
\<close>

lemma exBig_schedule:
  "generateSchedule u exToday [exSubject, exSubjectB] [exBig, exBigB] settings = [exBig, exBigB]"
proof -
  have fc: "fixedOrCompletedTasks [exBig, exBigB] = [exBig, exBigB]"
    by (simp add: fixedOrCompletedTasks_def exBig_def exBigB_def)
  have pw: "initialPendingWork [exSubject, exSubjectB] [exBig, exBigB] = []"
    by (simp add: initialPendingWork_def allocatedMins_def calculateTotalHoursNeeded_def
          exBig_def exBigB_def exSubject_def exSubjectB_def)
  have "generatedTasks u exToday [exSubject, exSubjectB] [exBig, exBigB] settings = []"
    unfolding generatedTasks_def finalState_def fc pw
    by (subst scheduleLoop.simps) (simp add: initialState_def)
  then show ?thesis
    by (simp add: generateSchedule_def fc)
qed

section \<open>The capacity of a day and the subjects of a day\<close>

text \<open>
  The planned minutes of the tasks of a date, and the subjects that have a task on the
  date (each once).
\<close>

definition plannedOn :: "string \<Rightarrow> DailyTask list \<Rightarrow> int" where
  "plannedOn ds tasks = sum_list (map plannedMinutes (filter (\<lambda>t. date t = ds) tasks))"

definition subjectsOn :: "string \<Rightarrow> DailyTask list \<Rightarrow> string list" where
  "subjectsOn ds tasks = remdups (map subjectId (filter (\<lambda>t. date t = ds) tasks))"

lemma existingMinsToday_plannedOn: "existingMinsToday fc ds = plannedOn ds fc"
  by (simp add: existingMinsToday_def plannedOn_def)

lemma plannedOn_append: "plannedOn ds (xs @ ys) = plannedOn ds xs + plannedOn ds ys"
  by (simp add: plannedOn_def)

lemma plannedOn_mergeTask:
  "plannedOn ds (mergeTask newId ds' sid mins ts) = plannedOn ds ts + (if ds' = ds then mins else 0)"
  using mergeTask_sum[of "\<lambda>k. snd k = ds" newId ds' sid mins ts]
  by (simp add: plannedOn_def taskKey_def)

lemma set_subjectsOn: "set (subjectsOn ds tasks) = {s. (s, ds) \<in> taskKey ` set tasks}"
  by (auto simp: subjectsOn_def taskKey_def)

lemma length_subjectsOn: "length (subjectsOn ds tasks) = card {s. (s, ds) \<in> taskKey ` set tasks}"
  using set_subjectsOn[of ds tasks] distinct_card[of "subjectsOn ds tasks"]
  by (simp add: subjectsOn_def)

lemma set_assignedIdsOf_keys: "set (assignedIdsOf fc ds) = {s. (s, ds) \<in> taskKey ` set fc}"
  by (auto simp: set_assignedIdsOf taskKey_def)

lemma plannedOn_none: "\<forall>t\<in>set tasks. date t \<noteq> ds \<Longrightarrow> plannedOn ds tasks = 0"
  unfolding plannedOn_def by (induction tasks) auto

definition dayBounds :: "UserSettings \<Rightarrow> DailyTask list \<Rightarrow> DailyTask list \<Rightarrow> JsDate \<Rightarrow> bool" where
  "dayBounds settings fc tasks D =
     (plannedOn (toLocalDateString D) fc + plannedOn (toLocalDateString D) tasks
        \<le> max (maxMinutesOn settings D) (plannedOn (toLocalDateString D) fc)
      \<and> int (card ({s. (s, toLocalDateString D) \<in> taskKey ` set fc}
                    \<union> {s. (s, toLocalDateString D) \<in> taskKey ` set tasks}))
        \<le> max (maxSubjectsPerDay settings) (int (card {s. (s, toLocalDateString D) \<in> taskKey ` set fc})))"

lemma generatedTasks_dayBounds:
  "dayBounds settings (fixedOrCompletedTasks schedule)
     (generatedTasks uuid today subjects schedule settings) D"
proof -
  define fc where "fc = fixedOrCompletedTasks schedule"
  define P where "P s \<longleftrightarrow>
      (\<forall>t\<in>set (newAutoTasks s). \<exists>D'. dateLess D' (currentDate s) \<and> date t = toLocalDateString D')
      \<and> (\<forall>D'. dayBounds settings fc (newAutoTasks s) D')" for s :: RunState
  define Q where "Q D x \<longleftrightarrow>
      (\<forall>t\<in>set (newAutoTasks x). \<exists>D'. (dateLess D' D \<or> D' = D) \<and> date t = toLocalDateString D')
      \<and> (\<forall>D'. D' \<noteq> D \<longrightarrow> dayBounds settings fc (newAutoTasks x) D')
      \<and> minutesAllocatedToday x
          = plannedOn (toLocalDateString D) fc + plannedOn (toLocalDateString D) (newAutoTasks x)
      \<and> minutesAllocatedToday x \<le> max (maxMinutesOn settings D) (plannedOn (toLocalDateString D) fc)
      \<and> set (assignedSubjectIdsToday x)
          = {s. (s, toLocalDateString D) \<in> taskKey ` set fc}
            \<union> {s. (s, toLocalDateString D) \<in> taskKey ` set (newAutoTasks x)}
      \<and> distinct (assignedSubjectIdsToday x)
      \<and> int (length (assignedSubjectIdsToday x))
          \<le> max (maxSubjectsPerDay settings) (int (card {s. (s, toLocalDateString D) \<in> taskKey ` set fc}))"
    for D :: JsDate and x :: RunState
  have "P (scheduleLoop uuid settings fc (initialState today (initialPendingWork subjects fc)))"
  proof (rule scheduleLoop_days[where Q = Q])
    show "P (initialState today (initialPendingWork subjects fc))"
      by (simp add: P_def initialState_def dayBounds_def plannedOn_def)
  next
    fix s assume Ps: "P s"
    define D where "D = currentDate s"
    have none: "\<forall>t\<in>set (newAutoTasks s). date t \<noteq> toLocalDateString D"
    proof
      fix t assume t: "t \<in> set (newAutoTasks s)"
      have "\<forall>t\<in>set (newAutoTasks s). \<exists>D'. dateLess D' D \<and> date t = toLocalDateString D'"
        using Ps by (simp add: P_def D_def)
      then obtain D' where "dateLess D' D" "date t = toLocalDateString D'"
        using t by blast
      then show "date t \<noteq> toLocalDateString D"
        using toLocalDateString_inj[of D' D] dateLess_irrefl by auto
    qed
    then have z: "plannedOn (toLocalDateString D) (newAutoTasks s) = 0"
      by (rule plannedOn_none)
    have e: "{s'. (s', toLocalDateString D) \<in> taskKey ` set (newAutoTasks s)} = {}"
      using none by (auto simp: taskKey_def)
    have "Q D (dayStart fc s)"
      unfolding Q_def
    proof (intro conjI)
      show "\<forall>t\<in>set (newAutoTasks (dayStart fc s)).
          \<exists>D'. (dateLess D' D \<or> D' = D) \<and> date t = toLocalDateString D'"
        using Ps by (auto simp: P_def D_def dayStart_def Let_def)
      show "\<forall>D'. D' \<noteq> D \<longrightarrow> dayBounds settings fc (newAutoTasks (dayStart fc s)) D'"
        using Ps by (simp add: P_def dayStart_def Let_def)
      show "minutesAllocatedToday (dayStart fc s)
          = plannedOn (toLocalDateString D) fc + plannedOn (toLocalDateString D) (newAutoTasks (dayStart fc s))"
        using z by (simp add: dayStart_def Let_def D_def existingMinsToday_plannedOn)
      show "minutesAllocatedToday (dayStart fc s) \<le> max (maxMinutesOn settings D) (plannedOn (toLocalDateString D) fc)"
        by (simp add: dayStart_def Let_def D_def existingMinsToday_plannedOn)
      show "set (assignedSubjectIdsToday (dayStart fc s))
          = {s. (s, toLocalDateString D) \<in> taskKey ` set fc}
            \<union> {s'. (s', toLocalDateString D) \<in> taskKey ` set (newAutoTasks (dayStart fc s))}"
        using e by (simp add: dayStart_def Let_def D_def set_assignedIdsOf_keys)
      show "distinct (assignedSubjectIdsToday (dayStart fc s))"
        by (simp add: dayStart_def Let_def distinct_assignedIdsOf)
      have "length (assignedIdsOf fc (toLocalDateString D)) = card {s. (s, toLocalDateString D) \<in> taskKey ` set fc}"
        using distinct_card[OF distinct_assignedIdsOf[of fc "toLocalDateString D"]]
        by (simp add: set_assignedIdsOf_keys)
      then show "int (length (assignedSubjectIdsToday (dayStart fc s)))
          \<le> max (maxSubjectsPerDay settings) (int (card {s. (s, toLocalDateString D) \<in> taskKey ` set fc}))"
        by (simp add: dayStart_def Let_def D_def)
    qed
    then show "Q (currentDate s) (dayStart fc s)" by (simp add: D_def)
  next
    fix D x i rest assume "Q D x"
    then show "Q D (x\<lparr>activeSubjects := rest\<rparr>)" by (simp add: Q_def)
  next
    fix D x i rest
    assume Qx: "Q D x" and ok: "queueOk (toLocalDateString D) x"
      and c: "minutesAllocatedToday x < maxMinutesOn settings D"
      and q: "activeSubjects x = i # rest" and nb: "\<not> capBlocks settings x i"
    define ds where "ds = toLocalDateString D"
    define sid where "sid = s_id (subject (pendingWork x ! i))"
    define mins where "mins = timeToAllocate (maxMinutesOn settings D) x i"
    define x' where "x' = allocateStep uuid settings ds (maxMinutesOn settings D) x"
    note f = allocateStep_alloc_fields[OF q nb, of uuid ds "maxMinutesOn settings D",
        folded x'_def sid_def mins_def]
    have i: "0 < minutesNeeded (pendingWork x ! i)"
      using ok q by (auto simp: queueOk_def)
    have le: "minutesAllocatedToday x + mins \<le> maxMinutesOn settings D"
      unfolding mins_def by (rule timeToAllocate_bounds(4)[OF c i])
    have keys: "taskKey ` set (newAutoTasks x') = insert (sid, ds) (taskKey ` set (newAutoTasks x))"
      unfolding f(2) by (rule mergeTask_key_set)
    have other: "dayBounds settings fc (newAutoTasks x') D'" if "D' \<noteq> D" for D'
    proof -
      have n: "toLocalDateString D' \<noteq> ds"
        using that toLocalDateString_inj[of D' D] by (auto simp: ds_def)
      have "plannedOn (toLocalDateString D') (newAutoTasks x') = plannedOn (toLocalDateString D') (newAutoTasks x)"
        unfolding f(2) plannedOn_mergeTask using n by simp
      moreover have "{s. (s, toLocalDateString D') \<in> taskKey ` set (newAutoTasks x')}
          = {s. (s, toLocalDateString D') \<in> taskKey ` set (newAutoTasks x)}"
        unfolding keys using n by auto
      ultimately show ?thesis
        using Qx that by (simp add: Q_def dayBounds_def)
    qed
    have dates: "\<forall>t\<in>set (newAutoTasks x'). \<exists>D'. (dateLess D' D \<or> D' = D) \<and> date t = toLocalDateString D'"
      unfolding f(2) using Qx by (intro mergeTask_all) (auto simp: Q_def ds_def)
    have mins': "minutesAllocatedToday x' = plannedOn ds fc + plannedOn ds (newAutoTasks x')"
      unfolding f(2,4) plannedOn_mergeTask using Qx by (simp add: Q_def ds_def)
    have cap: "minutesAllocatedToday x' \<le> max (maxMinutesOn settings D) (plannedOn ds fc)"
      unfolding f(4) using le by simp
    have set': "set (assignedSubjectIdsToday x')
        = {s. (s, ds) \<in> taskKey ` set fc} \<union> {s. (s, ds) \<in> taskKey ` set (newAutoTasks x')}"
      unfolding f(3) keys set_setAdd using Qx by (auto simp: Q_def ds_def)
    have dist: "distinct (assignedSubjectIdsToday x')"
      unfolding f(3) using Qx by (intro distinct_setAdd) (simp add: Q_def)
    have len: "int (length (assignedSubjectIdsToday x'))
        \<le> max (maxSubjectsPerDay settings) (int (card {s. (s, ds) \<in> taskKey ` set fc}))"
    proof (cases "sid \<in> set (assignedSubjectIdsToday x)")
      case True
      then show ?thesis
        unfolding f(3) using Qx by (simp add: Q_def setAdd_def ds_def)
    next
      case False
      then have "int (length (assignedSubjectIdsToday x)) < maxSubjectsPerDay settings"
        using nb by (simp add: capBlocks_def sid_def)
      then show ?thesis
        unfolding f(3) using False by (simp add: setAdd_def)
    qed
    show "Q D (allocateStep uuid settings (toLocalDateString D) (maxMinutesOn settings D) x)"
      unfolding Q_def ds_def[symmetric] x'_def[symmetric]
      using other dates mins' cap set' dist len by (simp add: ds_def)
  next
    fix D x assume Qx: "Q D x"
    have dates: "\<forall>t\<in>set (newAutoTasks x). \<exists>D'. dateLess D' (setDateNext D) \<and> date t = toLocalDateString D'"
    proof
      fix t assume t: "t \<in> set (newAutoTasks x)"
      have "\<forall>t\<in>set (newAutoTasks x). \<exists>D'. (dateLess D' D \<or> D' = D) \<and> date t = toLocalDateString D'"
        using Qx by (simp add: Q_def)
      then obtain D' where "dateLess D' D \<or> D' = D" "date t = toLocalDateString D'"
        using t by blast
      then show "\<exists>D'. dateLess D' (setDateNext D) \<and> date t = toLocalDateString D'"
        using dateLess_setDateNext[of D] dateLess_trans by blast
    qed
    have here: "dayBounds settings fc (newAutoTasks x) D"
    proof -
      have "card ({s. (s, toLocalDateString D) \<in> taskKey ` set fc}
            \<union> {s. (s, toLocalDateString D) \<in> taskKey ` set (newAutoTasks x)})
          = length (assignedSubjectIdsToday x)"
        using Qx distinct_card[of "assignedSubjectIdsToday x"] by (simp add: Q_def)
      then show ?thesis
        using Qx by (simp add: Q_def dayBounds_def)
    qed
    have "dayBounds settings fc (newAutoTasks x) D'" for D'
      using here Qx by (cases "D' = D") (auto simp: Q_def)
    then show "P (x\<lparr>currentDate := setDateNext D, daysCount := daysCount x + 1\<rparr>)"
      using dates by (simp add: P_def)
  qed
  then show ?thesis
    by (simp add: P_def generatedTasks_def finalState_def fc_def)
qed

subsection \<open>The capacity of a day\<close>

text \<open>
  C1 (as amended). With at least one subject, for every calendar day \<open>D\<close>, the planned
  minutes of the tasks of the resulting schedule dated \<open>D\<close> do not exceed the larger of
  the capacity of \<open>D\<close> (\<open>weekendHours * 60\<close> on a Saturday or Sunday, \<open>weekdayHours * 60\<close>
  otherwise) and the planned minutes of the preserved tasks dated \<open>D\<close>. So the total of a
  date stays within the capacity whenever the preserved tasks of the date do; preserved
  tasks above the capacity are kept, and nothing is added to their date.
\<close>

theorem capacity_respected:
  assumes "subjects \<noteq> []"
  shows "plannedOn (toLocalDateString D) (generateSchedule uuid today subjects schedule settings)
      \<le> max (maxMinutesOn settings D) (plannedOn (toLocalDateString D) (fixedOrCompletedTasks schedule))
    \<and> maxMinutesOn settings D
        = (if getDay D = 0 \<or> getDay D = 6 then weekendHours settings else weekdayHours settings) * 60"
  using assms generatedTasks_dayBounds[of settings schedule uuid today subjects D]
  by (simp add: generateSchedule_def plannedOn_append dayBounds_def maxMinutesOn_def Let_def)

theorem capacity_respected_witness:
  "[exSubject] \<noteq> []
   \<and> plannedOn (toLocalDateString exToday) (fixedOrCompletedTasks [exDone]) = 120
   \<and> plannedOn (toLocalDateString exToday) (generateSchedule exUuid exToday [exSubject] [exDone] exSettings)
       \<le> maxMinutesOn exSettings exToday"
proof -
  have p: "plannedOn (toLocalDateString exToday) (fixedOrCompletedTasks [exDone]) = 120"
    unfolding exPreserved exToday_string by (simp add: plannedOn_def exDone_def)
  have n: "[exSubject] \<noteq> []" by simp
  have "plannedOn (toLocalDateString exToday) (generateSchedule exUuid exToday [exSubject] [exDone] exSettings)
      \<le> max (maxMinutesOn exSettings exToday) 120"
    using capacity_respected[OF n, of exToday exUuid exToday "[exDone]" exSettings, THEN conjunct1]
    unfolding p .
  then show ?thesis
    using p by (simp add: exToday_minutes)
qed

text \<open>
  The claim as stated fails: a completed task of 240 planned minutes stays on a weekday
  whose capacity is 120 minutes.
\<close>

theorem capacity_exceeded_counterexample:
  "\<not> plannedOn (toLocalDateString exToday)
        (generateSchedule exUuid exToday [exSubject, exSubjectB] [exBig, exBigB] exDefault)
      \<le> maxMinutesOn exDefault exToday"
  unfolding exBig_schedule exToday_string exDefault_minutes
  by (simp add: plannedOn_def exBig_def exBigB_def)

subsection \<open>The subjects of a day\<close>

text \<open>
  C2 (as amended). With at least one subject, for every calendar day \<open>D\<close>, the number of
  distinct subjects that have a task dated \<open>D\<close> in the resulting schedule does not exceed
  the larger of \<open>maxSubjectsPerDay\<close> and the number of distinct subjects of the preserved
  tasks dated \<open>D\<close>: the allocator starts a subject on a date only below the cap, and the
  subjects of the preserved tasks are there whatever the cap is.
\<close>

theorem subject_cap_respected:
  assumes "subjects \<noteq> []"
  shows "int (length (subjectsOn (toLocalDateString D) (generateSchedule uuid today subjects schedule settings)))
      \<le> max (maxSubjectsPerDay settings)
            (int (length (subjectsOn (toLocalDateString D) (fixedOrCompletedTasks schedule))))"
proof -
  have "{s. (s, toLocalDateString D) \<in> taskKey ` set (fixedOrCompletedTasks schedule
            @ generatedTasks uuid today subjects schedule settings)}
      = {s. (s, toLocalDateString D) \<in> taskKey ` set (fixedOrCompletedTasks schedule)}
        \<union> {s. (s, toLocalDateString D) \<in> taskKey ` set (generatedTasks uuid today subjects schedule settings)}"
    by auto
  then show ?thesis
    using assms generatedTasks_dayBounds[of settings schedule uuid today subjects D]
    by (simp add: generateSchedule_def length_subjectsOn dayBounds_def)
qed

theorem subject_cap_respected_witness:
  "[exSubject] \<noteq> []
   \<and> subjectsOn (toLocalDateString exToday) (fixedOrCompletedTasks [exDone]) = [''A'']
   \<and> int (length (subjectsOn (toLocalDateString exToday)
        (generateSchedule exUuid exToday [exSubject] [exDone] exSettings)))
       \<le> maxSubjectsPerDay exSettings"
proof -
  have p: "subjectsOn (toLocalDateString exToday) (fixedOrCompletedTasks [exDone]) = [''A'']"
    unfolding exPreserved exToday_string by (simp add: subjectsOn_def exDone_def)
  have n: "[exSubject] \<noteq> []" by simp
  have m: "max (maxSubjectsPerDay exSettings) (int (length [''A''])) = maxSubjectsPerDay exSettings"
    by (simp add: exSettings_def)
  have "int (length (subjectsOn (toLocalDateString exToday)
        (generateSchedule exUuid exToday [exSubject] [exDone] exSettings)))
      \<le> max (maxSubjectsPerDay exSettings) (int (length [''A'']))"
    using subject_cap_respected[OF n, of exToday exUuid exToday "[exDone]" exSettings]
    unfolding p .
  then show ?thesis
    using p unfolding m by simp
qed

text \<open>
  The claim as stated fails: two subjects have a completed task on the same day, and
  \<open>maxSubjectsPerDay\<close> is 1.
\<close>

theorem subject_cap_exceeded_counterexample:
  "\<not> int (length (subjectsOn (toLocalDateString exToday)
        (generateSchedule exUuid exToday [exSubject, exSubjectB] [exBig, exBigB] exCap1)))
      \<le> maxSubjectsPerDay exCap1"
  unfolding exBig_schedule exToday_string
  by (simp add: subjectsOn_def exBig_def exBigB_def exCap1_def)

section \<open>Deadlines\<close>

lemma generatedTasks_sources:
  "\<forall>t\<in>set (generatedTasks uuid today subjects schedule settings).
     \<exists>s\<in>set subjects. s_id s = subjectId t \<and> strLessEq (date t) (testDate s)
       \<and> (\<exists>k<MAX_DAYS. date t = toLocalDateString ((setDateNext ^^ k) today))"
proof -
  define ok where "ok t \<longleftrightarrow> (\<exists>s\<in>set subjects. s_id s = subjectId t \<and> strLessEq (date t) (testDate s)
       \<and> (\<exists>k<MAX_DAYS. date t = toLocalDateString ((setDateNext ^^ k) today)))" for t :: DailyTask
  define R :: "Work list \<Rightarrow> DailyTask list \<Rightarrow> bool" where
    "R pw tasks \<longleftrightarrow> subject ` set pw \<subseteq> set subjects \<and> (\<forall>t\<in>set tasks. ok t)" for pw tasks
  have "R (pendingWork (finalState uuid today subjects schedule settings))
          (generatedTasks uuid today subjects schedule settings)"
  proof (rule generatedTasks_events)
    show "R (initialPendingWork subjects (fixedOrCompletedTasks schedule)) []"
      by (auto simp: R_def initialPendingWork_def)
  next
    fix pw tasks i mins newId k
    assume r: "R pw tasks" and k: "k < MAX_DAYS" and i: "i < length pw"
      and le: "strLessEq (toLocalDateString ((setDateNext ^^ k) today)) (testDate (subject (pw ! i)))"
    have sub: "subject ` set (pw[i := (pw ! i)\<lparr>minutesNeeded := minutesNeeded (pw ! i) - mins\<rparr>]) \<subseteq> set subjects"
    proof
      fix s assume "s \<in> subject ` set (pw[i := (pw ! i)\<lparr>minutesNeeded := minutesNeeded (pw ! i) - mins\<rparr>])"
      then obtain w where w: "w \<in> set (pw[i := (pw ! i)\<lparr>minutesNeeded := minutesNeeded (pw ! i) - mins\<rparr>])"
        "s = subject w" by auto
      then have "w = (pw ! i)\<lparr>minutesNeeded := minutesNeeded (pw ! i) - mins\<rparr> \<or> w \<in> set pw"
        using set_update_subset_insert[of pw i] by auto
      then show "s \<in> set subjects"
        using r i w(2) by (auto simp: R_def)
    qed
    have si: "subject (pw ! i) \<in> set subjects"
      using r i by (auto simp: R_def)
    have "\<forall>t\<in>set (mergeTask newId (toLocalDateString ((setDateNext ^^ k) today)) (s_id (subject (pw ! i))) mins tasks).
        ok t"
    proof (rule mergeTask_all)
      show "\<forall>t\<in>set tasks. ok t" using r by (simp add: R_def)
    next
      fix t assume "ok t"
      then show "ok (t\<lparr>plannedMinutes := plannedMinutes t + mins\<rparr>)" by (simp add: ok_def)
    next
      show "ok \<lparr>t_id = newId, subjectId = s_id (subject (pw ! i)),
            date = toLocalDateString ((setDateNext ^^ k) today), plannedMinutes = mins,
            completed = False, actualMinutes = 0, isFixed = False\<rparr>"
        using si le k by (auto simp: ok_def)
    qed
    then show "R (pw[i := (pw ! i)\<lparr>minutesNeeded := minutesNeeded (pw ! i) - mins\<rparr>])
         (mergeTask newId (toLocalDateString ((setDateNext ^^ k) today)) (s_id (subject (pw ! i))) mins tasks)"
      using sub by (simp add: R_def)
  qed
  then show ?thesis by (simp add: R_def ok_def)
qed

text \<open>
  C3. The identifiers of the subjects being distinct, no new task of a subject is dated
  strictly after the test date of the subject, in the order of strings. When today is a
  calendar day and the days of the horizon have four-digit years (the strings are then of
  the form YYYY-MM-DD, and their order is the order of the days), a subject whose test
  date is before today gets no new task.
\<close>

theorem deadline_respected:
  assumes "distinct (map s_id subjects)" and "s \<in> set subjects"
  shows "(\<forall>t\<in>set (generatedTasks uuid today subjects schedule settings).
            subjectId t = s_id s \<longrightarrow> \<not> strLess (testDate s) (date t))
       \<and> (validDate today \<and> (\<forall>k<MAX_DAYS. fourDigitYear ((setDateNext ^^ k) today))
            \<and> strLess (testDate s) (toLocalDateString today)
          \<longrightarrow> (\<forall>t\<in>set (generatedTasks uuid today subjects schedule settings). subjectId t \<noteq> s_id s))"
proof -
  have src: "strLessEq (date t) (testDate s)
      \<and> (\<exists>k<MAX_DAYS. date t = toLocalDateString ((setDateNext ^^ k) today))"
    if t: "t \<in> set (generatedTasks uuid today subjects schedule settings)" "subjectId t = s_id s" for t
  proof -
    obtain s' where s': "s' \<in> set subjects" "s_id s' = subjectId t" "strLessEq (date t) (testDate s')"
      "\<exists>k<MAX_DAYS. date t = toLocalDateString ((setDateNext ^^ k) today)"
      using generatedTasks_sources[of uuid today subjects schedule settings] t(1) by blast
    have "inj_on s_id (set subjects)"
      using assms(1) by (simp add: distinct_map)
    then have "s' = s"
      using s'(1,2) assms(2) t(2) by (auto dest: inj_onD)
    then show ?thesis using s'(3,4) by simp
  qed
  show ?thesis
  proof (intro conjI ballI impI)
    fix t assume "t \<in> set (generatedTasks uuid today subjects schedule settings)" "subjectId t = s_id s"
    then show "\<not> strLess (testDate s) (date t)"
      using src strLessEq_not_less by blast
  next
    fix t
    assume h: "validDate today \<and> (\<forall>k<MAX_DAYS. fourDigitYear ((setDateNext ^^ k) today))
            \<and> strLess (testDate s) (toLocalDateString today)"
      and t: "t \<in> set (generatedTasks uuid today subjects schedule settings)"
    show "subjectId t \<noteq> s_id s"
    proof
      assume "subjectId t = s_id s"
      then obtain k where k: "k < MAX_DAYS" "date t = toLocalDateString ((setDateNext ^^ k) today)"
        and le: "strLessEq (date t) (testDate s)"
        using src[OF t] by blast
      have "strLessEq (toLocalDateString today) (date t)"
        unfolding k(2) using h k(1) by (intro toLocalDateString_walk) blast+
      then have "strLessEq (toLocalDateString today) (testDate s)"
        using le by (rule strLessEq_trans)
      then show False
        using h strLessEq_not_less by blast
    qed
  qed
qed

theorem deadline_respected_witness:
  "distinct (map s_id [exSubject, exPast]) \<and> exPast \<in> set [exSubject, exPast]
   \<and> validDate exToday \<and> strLess (testDate exPast) (toLocalDateString exToday)
   \<and> list_all (\<lambda>t. subjectId t \<noteq> s_id exPast)
        (generatedTasks exUuid exToday [exSubject, exPast] [exDone] exSettings)
   \<and> list_all (\<lambda>t. subjectId t = s_id exSubject \<longrightarrow> \<not> strLess (testDate exSubject) (date t))
        (generatedTasks exUuid exToday [exSubject, exPast] [exDone] exSettings)"
proof -
  have d: "distinct (map s_id [exSubject, exPast])"
    by (simp add: exSubject_def exPast_def)
  have p: "strLess (testDate exPast) (toLocalDateString exToday)"
    unfolding exToday_string by (simp add: exPast_def)
  have m: "exPast \<in> set [exSubject, exPast]" "exSubject \<in> set [exSubject, exPast]"
    by simp_all
  have 1: "\<forall>t\<in>set (generatedTasks exUuid exToday [exSubject, exPast] [exDone] exSettings).
      subjectId t \<noteq> s_id exPast"
    using deadline_respected[OF d m(1), of exUuid exToday "[exDone]" exSettings, THEN conjunct2]
      exToday_valid exToday_horizon p by blast
  have 2: "\<forall>t\<in>set (generatedTasks exUuid exToday [exSubject, exPast] [exDone] exSettings).
      subjectId t = s_id exSubject \<longrightarrow> \<not> strLess (testDate exSubject) (date t)"
    using deadline_respected[OF d m(2), of exUuid exToday "[exDone]" exSettings, THEN conjunct1] .
  show ?thesis
    using d m(1) exToday_valid p 1 2 by (simp add: list_all_iff)
qed

section \<open>Conservation of the minutes of a subject\<close>














section \<open>Running the generation twice\<close>

text \<open>
  The identifiers \<open>uuid()\<close> returns are stored in the new tasks and read nowhere:
  \<open>withoutId\<close> forgets the identifier of a task, and a run on tasks without identifiers
  is the run without its identifiers.
\<close>

definition withoutId :: "DailyTask \<Rightarrow> DailyTask" where
  "withoutId t = t\<lparr>t_id := []\<rparr>"

definition withoutIds :: "RunState \<Rightarrow> RunState" where
  "withoutIds st = st\<lparr>newAutoTasks := map withoutId (newAutoTasks st)\<rparr>"

lemma findIndex_map: "findIndex p (map f xs) = findIndex (\<lambda>x. p (f x)) xs"
  by (induction xs) auto

lemma existingAutoTaskIndex_withoutId:
  "existingAutoTaskIndex ds sid (map withoutId ts) = existingAutoTaskIndex ds sid ts"
  by (simp add: existingAutoTaskIndex_def findIndex_map withoutId_def)

lemma mergeTask_withoutId:
  "map withoutId (mergeTask newId ds sid mins ts) = mergeTask [] ds sid mins (map withoutId ts)"
  by (induction ts) (auto simp: mergeTask_Nil mergeTask_Cons withoutId_def)

lemma withoutIds_fields:
  "pendingWork (withoutIds st) = pendingWork st"
  "newAutoTasks (withoutIds st) = map withoutId (newAutoTasks st)"
  "uuidCalls (withoutIds st) = uuidCalls st"
  "currentDate (withoutIds st) = currentDate st"
  "daysCount (withoutIds st) = daysCount st"
  "assignedSubjectIdsToday (withoutIds st) = assignedSubjectIdsToday st"
  "minutesAllocatedToday (withoutIds st) = minutesAllocatedToday st"
  "activeSubjects (withoutIds st) = activeSubjects st"
  by (simp_all add: withoutIds_def)

lemma allocateStep_withoutIds:
  "withoutIds (allocateStep uuid settings ds mm st) = allocateStep (\<lambda>n. []) settings ds mm (withoutIds st)"
proof (cases "activeSubjects st")
  case Nil
  then show ?thesis by (simp add: allocateStep_def withoutIds_def)
next
  case (Cons i rest)
  then have q: "activeSubjects (withoutIds st) = i # rest"
    by (simp add: withoutIds_def)
  have cb: "capBlocks settings (withoutIds st) i = capBlocks settings st i"
    by (simp add: capBlocks_def withoutIds_def)
  have tt: "timeToAllocate mm (withoutIds st) i = timeToAllocate mm st i"
    by (simp add: timeToAllocate_def withoutIds_def)
  show ?thesis
  proof (cases "capBlocks settings st i")
    case True
    then show ?thesis
      using cb by (simp add: allocateStep_skip[OF Cons True] allocateStep_skip[OF q]) (simp add: withoutIds_def)
  next
    case False
    then have nb: "\<not> capBlocks settings (withoutIds st) i" using cb by simp
    show ?thesis
      unfolding allocateStep_alloc[OF Cons False] allocateStep_alloc[OF q nb] tt withoutIds_fields
        existingAutoTaskIndex_withoutId
      by (simp add: withoutIds_def mergeTask_withoutId)
  qed
qed

lemma allocateLoop_withoutIds:
  "withoutIds (allocateLoop uuid settings ds mm st) = allocateLoop (\<lambda>n. []) settings ds mm (withoutIds st)"
proof (induction uuid settings ds mm st rule: allocateLoop.induct)
  case (1 uuid settings ds mm st)
  have c: "(minutesAllocatedToday (withoutIds st) < mm \<and> activeSubjects (withoutIds st) \<noteq> [])
      = (minutesAllocatedToday st < mm \<and> activeSubjects st \<noteq> [])"
    by (simp add: withoutIds_def)
  show ?case
  proof (cases "minutesAllocatedToday st < mm \<and> activeSubjects st \<noteq> []")
    case True
    then show ?thesis
      using "1.IH" c
      by (subst allocateLoop.simps, subst (2) allocateLoop.simps) (simp add: allocateStep_withoutIds)
  next
    case False
    then show ?thesis
      using c by (subst allocateLoop.simps, subst (2) allocateLoop.simps) auto
  qed
qed

lemma dayStep_withoutIds:
  "withoutIds (dayStep uuid settings fc st) = dayStep (\<lambda>n. []) settings fc (withoutIds st)"
proof -
  have s: "dayStart fc (withoutIds st) = withoutIds (dayStart fc st)"
    by (simp add: dayStart_def withoutIds_def Let_def)
  have u: "withoutIds (x\<lparr>currentDate := a, daysCount := b\<rparr>) = (withoutIds x)\<lparr>currentDate := a, daysCount := b\<rparr>"
    for x a b by (simp add: withoutIds_def)
  define A where "A = allocateLoop uuid settings (toLocalDateString (currentDate st))
      (maxMinutesOn settings (currentDate st)) (dayStart fc st)"
  have e: "allocateLoop (\<lambda>n. []) settings (toLocalDateString (currentDate st))
      (maxMinutesOn settings (currentDate st)) (withoutIds (dayStart fc st)) = withoutIds A"
    by (simp add: A_def allocateLoop_withoutIds)
  show ?thesis
    by (simp add: dayStep_def Let_def s e u withoutIds_fields A_def[symmetric])
qed

lemma scheduleLoop_withoutIds:
  "withoutIds (scheduleLoop uuid settings fc st) = scheduleLoop (\<lambda>n. []) settings fc (withoutIds st)"
proof (induction uuid settings fc st rule: scheduleLoop.induct)
  case (1 uuid settings fc st)
  have c: "(list_ex (\<lambda>w. 0 < minutesNeeded w) (pendingWork (withoutIds st)) \<and> daysCount (withoutIds st) < MAX_DAYS)
      = (list_ex (\<lambda>w. 0 < minutesNeeded w) (pendingWork st) \<and> daysCount st < MAX_DAYS)"
    by (simp add: withoutIds_def)
  show ?case
  proof (cases "list_ex (\<lambda>w. 0 < minutesNeeded w) (pendingWork st) \<and> daysCount st < MAX_DAYS")
    case True
    then show ?thesis
      using "1.IH" c
      by (subst scheduleLoop.simps, subst (2) scheduleLoop.simps) (simp add: dayStep_withoutIds)
  next
    case False
    then show ?thesis
      using c by (subst scheduleLoop.simps, subst (2) scheduleLoop.simps) auto
  qed
qed

lemma generatedTasks_withoutId:
  "map withoutId (generatedTasks uuid today subjects schedule settings)
     = generatedTasks (\<lambda>n. []) today subjects schedule settings"
proof -
  have "newAutoTasks (withoutIds st) = map withoutId (newAutoTasks st)" for st
    by (simp add: withoutIds_def)
  moreover have "withoutIds (initialState today pw) = initialState today pw" for pw
    by (simp add: withoutIds_def initialState_def)
  ultimately show ?thesis
    unfolding generatedTasks_def finalState_def
    by (metis scheduleLoop_withoutIds)
qed

text \<open>
  C5 (as amended). A second run on the schedule the first run produced, with the same
  subjects, settings and anchor date, generates the same new tasks as the first run up to
  their identifiers: the same subjects, dates and minutes, in the same order. The
  identifiers are those \<open>uuid()\<close> returns during each run.
\<close>

theorem regeneration_same_tasks:
  "map withoutId
     (generatedTasks uuid2 today subjects (generateSchedule uuid1 today subjects schedule settings) settings)
   = map withoutId (generatedTasks uuid1 today subjects schedule settings)"
proof -
  have "generatedTasks uuid2 today subjects (generateSchedule uuid1 today subjects schedule settings) settings
      = generatedTasks uuid2 today subjects schedule settings"
    by (rule generatedTasks_preserved_only) (rule fixedOrCompleted_generateSchedule)
  then show ?thesis
    by (simp add: generatedTasks_withoutId)
qed

theorem regeneration_same_tasks_witness:
  "map withoutId
     (generatedTasks exUuid2 exToday [exSubject]
        (generateSchedule exUuid exToday [exSubject] [exDone] exSettings) exSettings)
   = map withoutId (generatedTasks exUuid exToday [exSubject] [exDone] exSettings)"
  by (rule regeneration_same_tasks)

text \<open>
  The claim as stated fails: the two runs draw different identifiers from \<open>uuid()\<close>, and
  the new task of the second run is not the new task of the first.
\<close>

theorem regeneration_identical_counterexample:
  "generatedTasks exUuid2 exToday [exSubject]
     (generateSchedule exUuid exToday [exSubject] [exDone] exSettings) exSettings
   \<noteq> generatedTasks exUuid exToday [exSubject] [exDone] exSettings"
proof -
  have "generatedTasks exUuid2 exToday [exSubject]
      (generateSchedule exUuid exToday [exSubject] [exDone] exSettings) exSettings
      = generatedTasks exUuid2 exToday [exSubject] [exDone] exSettings"
    by (rule generatedTasks_preserved_only) (rule fixedOrCompleted_generateSchedule)
  then show ?thesis
    by (simp add: exRun[OF exToday_minutes] exNew_def exUuid_def exUuid2_def)
qed

section \<open>One task for a subject and a date\<close>

text \<open>
  C6 (as amended). Among the newly generated tasks there is at most one task for a subject
  and a date: the allocator extends the task it finds in \<open>newAutoTasks\<close> and pushes a task
  only when it finds none. The search does not look at the preserved tasks, so the merged
  schedule can hold a preserved task and a new task for the same subject and date.
\<close>

theorem generatedTasks_one_per_subject_and_date:
  "distinct (map taskKey (generatedTasks uuid today subjects schedule settings))"
  by (rule generatedTasks_distinct_keys)

theorem generatedTasks_one_per_subject_and_date_witness:
  "distinct (map taskKey (generatedTasks exUuid exToday [exSubject] [exDone] exSettings))"
  by (rule generatedTasks_one_per_subject_and_date)

text \<open>
  The claim as stated fails: the subject has a completed task today and still needs 10
  minutes, which it gets today in a second task.
\<close>

theorem generateSchedule_duplicate_counterexample:
  "\<not> distinct (map taskKey (generateSchedule exUuid exToday [exSubject] [exDone] exSettings))"
  unfolding exSchedule[OF exToday_minutes] by (simp add: taskKey_def exDone_def exNew_def)

section \<open>The preserved tasks\<close>

text \<open>
  \<open>tasksListed\<close>: every task of the schedule names a subject of the list. The component
  starts with no subject and no task, and the functions that call \<open>setSubjects\<close> or
  \<open>setSchedule\<close> keep the property: \<open>addSubject\<close> (lines 172 to 193) appends a subject,
  \<open>deleteSubject\<close> (lines 205 to 208) removes the tasks of the subject it removes,
  \<open>deleteTask\<close> (line 211) removes a task, \<open>handleTaskComplete\<close> (lines 350 to 357) marks
  a task, and \<open>generateSchedule\<close> makes tasks for subjects of the list. The identifier and
  the colour of a new subject, from \<open>uuid()\<close> and \<open>getRandomColor()\<close>, are inputs of
  \<open>addSubject\<close>.
\<close>

definition tasksListed :: "Subject list \<Rightarrow> DailyTask list \<Rightarrow> bool" where
  "tasksListed subjects schedule = list_all (\<lambda>t. subjectId t \<in> set (map s_id subjects)) schedule"

definition addSubject ::
  "string \<Rightarrow> string \<Rightarrow> string \<Rightarrow> int \<Rightarrow> string \<Rightarrow> Subject list \<Rightarrow> Subject list" where
  "addSubject newId newColor formSubjectName formDifficulty formDate subjects =
     (if formSubjectName = [] \<or> formDate = [] then subjects
      else if list_ex (\<lambda>s. s_name s = formSubjectName) subjects then subjects
      else subjects @ [\<lparr>s_id = newId, s_name = formSubjectName, difficulty = formDifficulty,
                        testDate = formDate, color = newColor\<rparr>])"

definition deleteSubject :: "string \<Rightarrow> Subject list \<times> DailyTask list \<Rightarrow> Subject list \<times> DailyTask list" where
  "deleteSubject sid st =
     (filter (\<lambda>s. s_id s \<noteq> sid) (fst st), filter (\<lambda>t. subjectId t \<noteq> sid) (snd st))"

definition deleteTask :: "string \<Rightarrow> DailyTask list \<Rightarrow> DailyTask list" where
  "deleteTask taskId schedule = filter (\<lambda>t. t_id t \<noteq> taskId) schedule"

definition handleTaskComplete :: "DailyTask \<Rightarrow> int \<Rightarrow> DailyTask list \<Rightarrow> DailyTask list" where
  "handleTaskComplete task actualMins schedule =
     map (\<lambda>t. if t_id t = t_id task then t\<lparr>completed := True, actualMinutes := actualMins\<rparr> else t) schedule"

lemma tasksListed_deleteSubject:
  "tasksListed subjects schedule \<Longrightarrow>
   tasksListed (fst (deleteSubject sid (subjects, schedule))) (snd (deleteSubject sid (subjects, schedule)))"
  by (auto simp: tasksListed_def deleteSubject_def list_all_iff)

lemma tasksListed_deleteTask:
  "tasksListed subjects schedule \<Longrightarrow> tasksListed subjects (deleteTask taskId schedule)"
  by (auto simp: tasksListed_def deleteTask_def list_all_iff)

lemma tasksListed_handleTaskComplete:
  "tasksListed subjects schedule \<Longrightarrow> tasksListed subjects (handleTaskComplete task actualMins schedule)"
  by (auto simp: tasksListed_def handleTaskComplete_def list_all_iff)

lemma tasksListed_initial: "tasksListed [] []"
  by (simp add: tasksListed_def)

lemma tasksListed_addSubject:
  "tasksListed subjects schedule \<Longrightarrow>
   tasksListed (addSubject newId newColor formSubjectName formDifficulty formDate subjects) schedule"
  by (auto simp: tasksListed_def addSubject_def list_all_iff)

lemma generatedTasks_listed:
  "tasksListed subjects (generatedTasks uuid today subjects schedule settings)"
proof -
  define R :: "Work list \<Rightarrow> DailyTask list \<Rightarrow> bool" where
    "R pw tasks \<longleftrightarrow> subject ` set pw \<subseteq> set subjects \<and> (\<forall>t\<in>set tasks. subjectId t \<in> s_id ` set subjects)"
    for pw tasks
  have "R (pendingWork (finalState uuid today subjects schedule settings))
          (generatedTasks uuid today subjects schedule settings)"
  proof (rule generatedTasks_events)
    show "R (initialPendingWork subjects (fixedOrCompletedTasks schedule)) []"
      by (auto simp: R_def initialPendingWork_def)
  next
    fix pw tasks i mins newId k
    assume r: "R pw tasks" and i: "i < length pw"
    have s: "subject (pw ! i) \<in> set subjects"
      using r i by (auto simp: R_def)
    have "subject ` set (pw[i := (pw ! i)\<lparr>minutesNeeded := minutesNeeded (pw ! i) - mins\<rparr>]) \<subseteq> set subjects"
      using r i s by (auto simp: R_def set_conv_nth nth_list_update)
    moreover have "\<forall>t\<in>set (mergeTask newId (toLocalDateString ((setDateNext ^^ k) today))
          (s_id (subject (pw ! i))) mins tasks). subjectId t \<in> s_id ` set subjects"
      using r s by (intro mergeTask_all) (auto simp: R_def)
    ultimately show "R (pw[i := (pw ! i)\<lparr>minutesNeeded := minutesNeeded (pw ! i) - mins\<rparr>])
         (mergeTask newId (toLocalDateString ((setDateNext ^^ k) today)) (s_id (subject (pw ! i))) mins tasks)"
      by (simp add: R_def)
  qed
  then show ?thesis by (simp add: R_def tasksListed_def list_all_iff)
qed

lemma tasksListed_generateSchedule:
  "tasksListed subjects schedule \<Longrightarrow>
   tasksListed subjects (generateSchedule uuid today subjects schedule settings)"
  using generatedTasks_listed[of subjects uuid today schedule settings]
  by (auto simp: generateSchedule_def tasksListed_def list_all_iff fixedOrCompletedTasks_def)

text \<open>
  C7. The fixed or completed tasks of the schedule are, after \<open>generateSchedule\<close>, the fixed
  or completed tasks of the result: the same tasks, unchanged, in the same order. When every
  task of the schedule names a subject of the list, the result is exactly the preserved tasks
  followed by the newly generated ones, none of which is fixed or completed: also with no
  subject, where the function returns at once and the schedule, then empty, stays as it is.
\<close>

theorem generateSchedule_preserved:
  "fixedOrCompletedTasks (generateSchedule uuid today subjects schedule settings)
     = fixedOrCompletedTasks schedule
   \<and> (tasksListed subjects schedule \<longrightarrow>
        generateSchedule uuid today subjects schedule settings
          = fixedOrCompletedTasks schedule @ generatedTasks uuid today subjects schedule settings
        \<and> (\<forall>t\<in>set (generatedTasks uuid today subjects schedule settings). \<not> isFixed t \<and> \<not> completed t))"
proof (intro conjI impI)
  show "fixedOrCompletedTasks (generateSchedule uuid today subjects schedule settings)
     = fixedOrCompletedTasks schedule"
    by (simp add: generateSchedule_def fixedOrCompleted_generated)
next
  assume l: "tasksListed subjects schedule"
  show "generateSchedule uuid today subjects schedule settings
          = fixedOrCompletedTasks schedule @ generatedTasks uuid today subjects schedule settings"
  proof (cases "subjects = []")
    case True
    then have "schedule = []" using l by (cases schedule) (simp_all add: tasksListed_def)
    then show ?thesis
      by (simp add: True generateSchedule_def generatedTasks_no_subjects fixedOrCompletedTasks_def)
  next
    case False
    then show ?thesis by (simp add: generateSchedule_def)
  qed
next
  show "\<forall>t\<in>set (generatedTasks uuid today subjects schedule settings). \<not> isFixed t \<and> \<not> completed t"
    using generatedTasks_fresh[of uuid today subjects schedule settings] by (simp add: freshTask_def)
qed

text \<open>
  The witness: \<open>exDone\<close> is completed and \<open>exPlan\<close> is a task of an earlier generation,
  neither fixed nor completed. The result keeps \<open>exDone\<close>, drops \<open>exPlan\<close> and adds the new task.
\<close>

definition exPlan :: DailyTask where
  "exPlan = \<lparr>t_id = ''a2'', subjectId = ''A'', date = ''2026-11-03'', plannedMinutes = 60,
              completed = False, actualMinutes = 0, isFixed = False\<rparr>"

theorem generateSchedule_preserved_witness:
  "tasksListed [exSubject] [exDone, exPlan]
   \<and> fixedOrCompletedTasks [exDone, exPlan] = [exDone]
   \<and> generatedTasks exUuid exToday [exSubject] [exDone, exPlan] exSettings = [exNew (exUuid 0)]
   \<and> generateSchedule exUuid exToday [exSubject] [exDone, exPlan] exSettings = [exDone, exNew (exUuid 0)]
   \<and> fixedOrCompletedTasks (generateSchedule exUuid exToday [exSubject] [exDone, exPlan] exSettings) = [exDone]"
proof -
  have l: "tasksListed [exSubject] [exDone, exPlan]"
    by (simp add: tasksListed_def exDone_def exPlan_def exSubject_def)
  have fc: "fixedOrCompletedTasks [exDone, exPlan] = [exDone]"
    by (simp add: fixedOrCompletedTasks_def exDone_def exPlan_def)
  have n: "generatedTasks exUuid exToday [exSubject] [exDone, exPlan] exSettings = [exNew (exUuid 0)]"
    using generatedTasks_preserved_only[of "[exDone, exPlan]" "[exDone]" exUuid exToday "[exSubject]" exSettings]
    by (simp add: fc exPreserved exRun[OF exToday_minutes])
  note g = generateSchedule_preserved[of exUuid exToday "[exSubject]" "[exDone, exPlan]" exSettings]
  have g1: "fixedOrCompletedTasks (generateSchedule exUuid exToday [exSubject] [exDone, exPlan] exSettings) = [exDone]"
    using g[THEN conjunct1] by (simp add: fc)
  have g2: "generateSchedule exUuid exToday [exSubject] [exDone, exPlan] exSettings = [exDone, exNew (exUuid 0)]"
    using g[THEN conjunct2] l by (simp add: fc n)
  show ?thesis
    by (intro conjI l fc n g1 g2)
qed

section \<open>The minutes of a new task\<close>

lemma dvd_existingMinsToday:
  "\<forall>p\<in>set fc. k dvd plannedMinutes p \<Longrightarrow> k dvd existingMinsToday fc ds"
  unfolding existingMinsToday_def by (induction fc) auto

lemma dvd_allocatedMins:
  "\<forall>p\<in>set fc. k dvd plannedMinutes p \<and> (completed p \<longrightarrow> k dvd actualMinutes p) \<Longrightarrow>
   k dvd allocatedMins fc s"
  unfolding allocatedMins_def by (induction fc) auto

lemma dvd_maxMinutesOn: "30 dvd maxMinutesOn settings D"
  by (simp add: maxMinutesOn_def Let_def)

lemma dvd_initialPendingWork:
  assumes "\<forall>p\<in>set fc. 30 dvd plannedMinutes p \<and> (completed p \<longrightarrow> 30 dvd actualMinutes p)"
  shows "\<forall>w\<in>set (initialPendingWork subjects fc). 30 dvd minutesNeeded w"
proof -
  have "30 dvd calculateTotalHoursNeeded (difficulty s) * 60 - allocatedMins fc s" for s
  proof -
    have "(30::int) dvd calculateTotalHoursNeeded (difficulty s) * 60"
      by (simp add: calculateTotalHoursNeeded_def)
    then show ?thesis
      using dvd_allocatedMins[OF assms, of s] by (rule dvd_diff)
  qed
  then show ?thesis by (auto simp: initialPendingWork_def max_def)
qed

lemma timeToAllocate_slot:
  assumes "minutesAllocatedToday st < maxMinutes" "0 < minutesNeeded (pendingWork st ! i)"
    and "30 dvd maxMinutes" "30 dvd minutesAllocatedToday st" "30 dvd minutesNeeded (pendingWork st ! i)"
  shows "timeToAllocate maxMinutes st i = 30"
proof -
  have "30 dvd maxMinutes - minutesAllocatedToday st"
    using assms(3,4) by (rule dvd_diff)
  then have "30 \<le> maxMinutes - minutesAllocatedToday st"
    using assms(1) by (intro zdvd_imp_le) auto
  moreover have "30 \<le> minutesNeeded (pendingWork st ! i)"
    using assms(2,5) by (intro zdvd_imp_le) auto
  ultimately show ?thesis by (simp add: timeToAllocate_def Let_def)
qed

lemma generatedTasks_slots:
  assumes H: "\<forall>p\<in>set (fixedOrCompletedTasks schedule).
      30 dvd plannedMinutes p \<and> (completed p \<longrightarrow> 30 dvd actualMinutes p)"
  shows "\<forall>t\<in>set (generatedTasks uuid today subjects schedule settings). 30 dvd plannedMinutes t"
proof -
  define fc where "fc = fixedOrCompletedTasks schedule"
  define P where "P s \<longleftrightarrow> (\<forall>w\<in>set (pendingWork s). 30 dvd minutesNeeded w)
      \<and> (\<forall>t\<in>set (newAutoTasks s). 30 dvd plannedMinutes t)" for s :: RunState
  define Q where "Q D x \<longleftrightarrow> P x \<and> 30 dvd minutesAllocatedToday x" for D :: JsDate and x :: RunState
  have "P (scheduleLoop uuid settings fc (initialState today (initialPendingWork subjects fc)))"
  proof (rule scheduleLoop_days[where Q = Q])
    show "P (initialState today (initialPendingWork subjects fc))"
      using dvd_initialPendingWork[OF H[folded fc_def], of subjects] by (simp add: P_def initialState_def)
  next
    fix s assume "P s"
    then show "Q (currentDate s) (dayStart fc s)"
      using dvd_existingMinsToday[of fc 30] H by (simp add: Q_def P_def dayStart_def Let_def fc_def)
  next
    fix D x i rest assume "Q D x"
    then show "Q D (x\<lparr>activeSubjects := rest\<rparr>)" by (simp add: Q_def P_def)
  next
    fix D x i rest
    assume Qx: "Q D x" and ok: "queueOk (toLocalDateString D) x"
      and c: "minutesAllocatedToday x < maxMinutesOn settings D"
      and q: "activeSubjects x = i # rest" and nb: "\<not> capBlocks settings x i"
    note f = allocateStep_alloc_fields[OF q nb, of uuid "toLocalDateString D" "maxMinutesOn settings D"]
    have i: "i < length (pendingWork x)" "0 < minutesNeeded (pendingWork x ! i)"
      using ok q by (auto simp: queueOk_def)
    have di: "30 dvd minutesNeeded (pendingWork x ! i)"
      using Qx i(1) by (simp add: Q_def P_def)
    have t: "timeToAllocate (maxMinutesOn settings D) x i = 30"
      using Qx by (intro timeToAllocate_slot[OF c i(2) dvd_maxMinutesOn _ di]) (simp add: Q_def)
    have pw: "\<forall>w\<in>set (pendingWork (allocateStep uuid settings (toLocalDateString D) (maxMinutesOn settings D) x)).
        30 dvd minutesNeeded w"
    proof
      fix w assume "w \<in> set (pendingWork (allocateStep uuid settings (toLocalDateString D) (maxMinutesOn settings D) x))"
      then have "w = (pendingWork x ! i)\<lparr>minutesNeeded := minutesNeeded (pendingWork x ! i) - 30\<rparr>
          \<or> w \<in> set (pendingWork x)"
        unfolding f(1) t using set_update_subset_insert[of "pendingWork x" i] by auto
      then show "30 dvd minutesNeeded w"
        using Qx di by (auto simp: Q_def P_def)
    qed
    have tasks: "\<forall>t\<in>set (newAutoTasks (allocateStep uuid settings (toLocalDateString D) (maxMinutesOn settings D) x)).
        30 dvd plannedMinutes t"
      unfolding f(2) t using Qx by (intro mergeTask_all) (auto simp: Q_def P_def)
    show "Q D (allocateStep uuid settings (toLocalDateString D) (maxMinutesOn settings D) x)"
      using pw tasks Qx by (simp add: Q_def P_def f(4) t)
  next
    fix D x assume "Q D x"
    then show "P (x\<lparr>currentDate := setDateNext D, daysCount := daysCount x + 1\<rparr>)"
      by (simp add: Q_def P_def)
  qed
  then show ?thesis
    by (simp add: P_def generatedTasks_def finalState_def fc_def)
qed

text \<open>
  C8 (as amended). Every newly generated task has positive planned minutes. They are a
  multiple of the 30-minute slot when the minutes of the preserved tasks are (the planned
  minutes, and the actual minutes of the completed ones): the last slot of a subject is cut
  to what the subject still needs, and the last slot of a day to what the day has left.
\<close>

theorem generatedTasks_minutes:
  "(\<forall>t\<in>set (generatedTasks uuid today subjects schedule settings). 0 < plannedMinutes t)
   \<and> ((\<forall>p\<in>set (fixedOrCompletedTasks schedule).
          30 dvd plannedMinutes p \<and> (completed p \<longrightarrow> 30 dvd actualMinutes p))
       \<longrightarrow> (\<forall>t\<in>set (generatedTasks uuid today subjects schedule settings). 30 dvd plannedMinutes t))"
  using generatedTasks_fresh[of uuid today subjects schedule settings]
    generatedTasks_slots[of schedule uuid today subjects settings]
  by (simp add: freshTask_def)

theorem generatedTasks_minutes_witness:
  "list_all (\<lambda>p. 30 dvd plannedMinutes p \<and> (completed p \<longrightarrow> 30 dvd actualMinutes p))
     (fixedOrCompletedTasks [exDone30])
   \<and> list_all (\<lambda>t. 0 < plannedMinutes t \<and> 30 dvd plannedMinutes t)
       (generatedTasks exUuid exToday [exSubject] [exDone30] exSettings)"
proof -
  have fc: "fixedOrCompletedTasks [exDone30] = [exDone30]"
    by (simp add: fixedOrCompletedTasks_def exDone30_def)
  have h: "\<forall>p\<in>set (fixedOrCompletedTasks [exDone30]).
      30 dvd plannedMinutes p \<and> (completed p \<longrightarrow> 30 dvd actualMinutes p)"
    by (simp add: fc) (simp add: exDone30_def)
  show ?thesis
    using h generatedTasks_minutes[of exUuid exToday "[exSubject]" "[exDone30]" exSettings]
    by (simp add: list_all_iff)
qed

text \<open>
  The claim as stated fails: a subject that has 170 of its 180 minutes completed gets a
  new task of 10 minutes.
\<close>

theorem generatedTasks_slot_counterexample:
  "map plannedMinutes (generatedTasks exUuid exToday [exSubject] [exDone] exSettings) = [10]
   \<and> \<not> (30::int) dvd 10"
  by (simp add: exRun[OF exToday_minutes] exNew_def)

section \<open>The cap at zero\<close>







section \<open>Passing the cap with a preserved task\<close>

text \<open>
  The states of a run. \<open>runReaches\<close> holds for the states at the head of the outer loop:
  the first one, and the state after the body of the loop, run in a state in which the
  condition of the loop holds. \<open>loopState D x\<close> holds for the states \<open>x\<close> at the head of
  the inner loop during the day \<open>D\<close>: the state after the declarations of the day, and the
  state after an iteration, run in a state in which the condition of the inner loop holds.
\<close>

inductive runReaches :: "(nat \<Rightarrow> string) \<Rightarrow> UserSettings \<Rightarrow> DailyTask list \<Rightarrow> RunState \<Rightarrow> RunState \<Rightarrow> bool"
  for uuid :: "nat \<Rightarrow> string" and settings :: UserSettings and fc :: "DailyTask list" and st0 :: RunState
where
  run_start: "runReaches uuid settings fc st0 st0"
| run_day: "runReaches uuid settings fc st0 s \<Longrightarrow>
     list_ex (\<lambda>w. minutesNeeded w > 0) (pendingWork s) \<Longrightarrow> daysCount s < MAX_DAYS \<Longrightarrow>
     runReaches uuid settings fc st0 (dayStep uuid settings fc s)"

inductive loopState :: "(nat \<Rightarrow> string) \<Rightarrow> UserSettings \<Rightarrow> DailyTask list \<Rightarrow> RunState \<Rightarrow> JsDate \<Rightarrow> RunState \<Rightarrow> bool"
  for uuid :: "nat \<Rightarrow> string" and settings :: UserSettings and fc :: "DailyTask list" and st0 :: RunState
where
  day_start: "runReaches uuid settings fc st0 s \<Longrightarrow>
     list_ex (\<lambda>w. minutesNeeded w > 0) (pendingWork s) \<Longrightarrow> daysCount s < MAX_DAYS \<Longrightarrow>
     loopState uuid settings fc st0 (currentDate s) (dayStart fc s)"
| day_iteration: "loopState uuid settings fc st0 D x \<Longrightarrow>
     minutesAllocatedToday x < maxMinutesOn settings D \<Longrightarrow> activeSubjects x \<noteq> [] \<Longrightarrow>
     loopState uuid settings fc st0 D
       (allocateStep uuid settings (toLocalDateString D) (maxMinutesOn settings D) x)"

code_pred runReaches .

code_pred loopState .

definition duringRun ::
  "(nat \<Rightarrow> string) \<Rightarrow> JsDate \<Rightarrow> Subject list \<Rightarrow> DailyTask list \<Rightarrow> UserSettings \<Rightarrow> JsDate \<Rightarrow> RunState \<Rightarrow> bool" where
  "duringRun uuid today subjects schedule settings D x =
     loopState uuid settings (fixedOrCompletedTasks schedule)
       (initialState today (initialPendingWork subjects (fixedOrCompletedTasks schedule))) D x"

text \<open>The loops pass through these states, and end in one of them.\<close>

lemma runReaches_scheduleLoop:
  "runReaches uuid settings fc st0 s \<Longrightarrow> scheduleLoop uuid settings fc s = scheduleLoop uuid settings fc st0"
proof (induction rule: runReaches.induct)
  case run_start
  show ?case by simp
next
  case (run_day s)
  have "scheduleLoop uuid settings fc s = scheduleLoop uuid settings fc (dayStep uuid settings fc s)"
    using run_day(2,3) by (subst scheduleLoop.simps) simp
  then show ?case using run_day.IH by simp
qed

lemma runReaches_final: "runReaches uuid settings fc st0 (scheduleLoop uuid settings fc st0)"
  by (rule scheduleLoop_rule[where P = "runReaches uuid settings fc st0"])
     (simp_all add: run_start run_day)

lemma loopState_origin:
  "loopState uuid settings fc st0 D x \<Longrightarrow>
   \<exists>s. runReaches uuid settings fc st0 s \<and> list_ex (\<lambda>w. minutesNeeded w > 0) (pendingWork s)
      \<and> daysCount s < MAX_DAYS \<and> D = currentDate s
      \<and> allocateLoop uuid settings (toLocalDateString D) (maxMinutesOn settings D) x
          = allocateLoop uuid settings (toLocalDateString D) (maxMinutesOn settings D) (dayStart fc s)"
proof (induction rule: loopState.induct)
  case (day_start s)
  then show ?case by blast
next
  case (day_iteration D x)
  have "allocateLoop uuid settings (toLocalDateString D) (maxMinutesOn settings D) x
      = allocateLoop uuid settings (toLocalDateString D) (maxMinutesOn settings D)
          (allocateStep uuid settings (toLocalDateString D) (maxMinutesOn settings D) x)"
    using day_iteration(2,3) by (subst allocateLoop.simps) simp
  then show ?case using day_iteration.IH by auto
qed

lemma loopState_final:
  assumes "runReaches uuid settings fc st0 s" "list_ex (\<lambda>w. minutesNeeded w > 0) (pendingWork s)"
    "daysCount s < MAX_DAYS"
  shows "loopState uuid settings fc st0 (currentDate s)
     (allocateLoop uuid settings (toLocalDateString (currentDate s)) (maxMinutesOn settings (currentDate s))
        (dayStart fc s))"
  by (rule allocateLoop_rule[where P = "loopState uuid settings fc st0 (currentDate s)"])
     (simp_all add: day_start[OF assms] day_iteration)

text \<open>
  The subjects of the preserved tasks of the day stay in the set of the subjects assigned today,
  and a task stays in \<open>newAutoTasks\<close> for its subject and date until the end of the run.
\<close>

lemma allocateStep_assigned_mono:
  "set (assignedSubjectIdsToday st)
     \<subseteq> set (assignedSubjectIdsToday (allocateStep uuid settings dateStr maxMinutes st))"
proof (cases "activeSubjects st")
  case Nil
  then show ?thesis by (simp add: allocateStep_def)
next
  case (Cons i rest)
  show ?thesis
  proof (cases "capBlocks settings st i")
    case True
    then show ?thesis by (simp add: allocateStep_skip[OF Cons True])
  next
    case False
    show ?thesis
      by (simp add: allocateStep_alloc[OF Cons False] set_setAdd subset_insertI)
  qed
qed

lemma loopState_assigned:
  "loopState uuid settings fc st0 D x \<Longrightarrow>
   set (assignedIdsOf fc (toLocalDateString D)) \<subseteq> set (assignedSubjectIdsToday x)"
proof (induction rule: loopState.induct)
  case (day_start s)
  show ?case by (simp add: dayStart_def Let_def)
next
  case (day_iteration D x)
  then show ?case
    using allocateStep_assigned_mono[of x uuid settings "toLocalDateString D" "maxMinutesOn settings D"]
    by blast
qed

lemma allocateLoop_keys_mono:
  "k \<in> taskKey ` set (newAutoTasks st) \<Longrightarrow>
   k \<in> taskKey ` set (newAutoTasks (allocateLoop uuid settings dateStr maxMinutes st))"
  by (rule allocateLoop_rule[where P = "\<lambda>x. k \<in> taskKey ` set (newAutoTasks x)"])
     (simp_all add: allocateStep_keys_mono)

lemma scheduleLoop_keys_mono:
  assumes "k \<in> taskKey ` set (newAutoTasks st)"
  shows "k \<in> taskKey ` set (newAutoTasks (scheduleLoop uuid settings fc st))"
proof (rule scheduleLoop_rule[where P = "\<lambda>x. k \<in> taskKey ` set (newAutoTasks x)"])
  show "k \<in> taskKey ` set (newAutoTasks st)" by (rule assms)
next
  fix s :: RunState assume "k \<in> taskKey ` set (newAutoTasks s)"
  then have "k \<in> taskKey ` set (newAutoTasks (dayStart fc s))"
    by (simp add: dayStart_def Let_def)
  then show "k \<in> taskKey ` set (newAutoTasks (dayStep uuid settings fc s))"
    using allocateLoop_keys_mono by (simp add: dayStep_def Let_def)
qed

lemma loopState_keys:
  assumes "loopState uuid settings fc st0 D x" "k \<in> taskKey ` set (newAutoTasks x)"
  shows "k \<in> taskKey ` set (newAutoTasks (scheduleLoop uuid settings fc st0))"
proof -
  obtain s where s: "runReaches uuid settings fc st0 s" "list_ex (\<lambda>w. minutesNeeded w > 0) (pendingWork s)"
      "daysCount s < MAX_DAYS" "D = currentDate s"
      "allocateLoop uuid settings (toLocalDateString D) (maxMinutesOn settings D) x
          = allocateLoop uuid settings (toLocalDateString D) (maxMinutesOn settings D) (dayStart fc s)"
    using loopState_origin[OF assms(1)] by blast
  have "k \<in> taskKey ` set (newAutoTasks
      (allocateLoop uuid settings (toLocalDateString D) (maxMinutesOn settings D) x))"
    using assms(2) by (rule allocateLoop_keys_mono)
  then have "k \<in> taskKey ` set (newAutoTasks (dayStep uuid settings fc s))"
    by (simp add: dayStep_def Let_def s(4)[symmetric] s(5))
  then have "k \<in> taskKey ` set (newAutoTasks (scheduleLoop uuid settings fc (dayStep uuid settings fc s)))"
    by (rule scheduleLoop_keys_mono)
  moreover have "scheduleLoop uuid settings fc (dayStep uuid settings fc s) = scheduleLoop uuid settings fc st0"
    using runReaches_scheduleLoop[OF run_day[OF s(1,2,3)]] .
  ultimately show ?thesis by simp
qed

text \<open>
  C10. In every state of the inner loop, on every day of a run, the cap does not stop a
  subject that has a preserved (fixed or completed) task on the date of the day, whatever
  \<open>maxSubjectsPerDay\<close> and the number of subjects already assigned are. When this subject is
  at the head of the queue and the day has capacity left, the iteration allocates to it: the
  result of the run has a new task with positive minutes for this subject on this date.
\<close>

theorem preserved_subject_passes_cap:
  assumes "duringRun uuid today subjects schedule settings D x"
    and "p \<in> set (fixedOrCompletedTasks schedule)"
    and "date p = toLocalDateString D"
    and "subjectId p = s_id (subject (pendingWork x ! i))"
  shows "\<not> capBlocks settings x i
    \<and> (activeSubjects x = i # rest \<and> minutesAllocatedToday x < maxMinutesOn settings D \<longrightarrow>
         (\<exists>t\<in>set (generatedTasks uuid today subjects schedule settings).
            subjectId t = subjectId p \<and> date t = date p \<and> 0 < plannedMinutes t))"
proof -
  define fc where "fc = fixedOrCompletedTasks schedule"
  define st0 where "st0 = initialState today (initialPendingWork subjects fc)"
  define ds where "ds = toLocalDateString D"
  define mm where "mm = maxMinutesOn settings D"
  have L: "loopState uuid settings fc st0 D x"
    using assms(1) by (simp add: duringRun_def fc_def st0_def)
  have "subjectId p \<in> set (assignedIdsOf fc ds)"
    using assms(2,3) by (auto simp: set_assignedIdsOf fc_def ds_def)
  then have "subjectId p \<in> set (assignedSubjectIdsToday x)"
    using loopState_assigned[OF L] by (auto simp: ds_def)
  then have nb: "\<not> capBlocks settings x i"
    using assms(4) by (simp add: capBlocks_def)
  have "\<exists>t\<in>set (generatedTasks uuid today subjects schedule settings).
            subjectId t = subjectId p \<and> date t = date p \<and> 0 < plannedMinutes t"
    if q: "activeSubjects x = i # rest" and c: "minutesAllocatedToday x < mm"
  proof -
    define x' where "x' = allocateStep uuid settings ds mm x"
    have L': "loopState uuid settings fc st0 D x'"
      unfolding x'_def ds_def mm_def using L c q by (intro day_iteration) (simp_all add: mm_def)
    have "taskKey p \<in> taskKey ` set (newAutoTasks x')"
      unfolding x'_def allocateStep_alloc_fields(2)[OF q nb] mergeTask_key_set
      using assms(3,4) by (simp add: taskKey_def ds_def)
    then have "taskKey p \<in> taskKey ` set (newAutoTasks (scheduleLoop uuid settings fc st0))"
      by (rule loopState_keys[OF L'])
    then obtain t where t: "t \<in> set (generatedTasks uuid today subjects schedule settings)"
        "taskKey t = taskKey p"
      by (auto simp: generatedTasks_def finalState_def fc_def st0_def)
    moreover have "0 < plannedMinutes t"
      using generatedTasks_fresh[of uuid today subjects schedule settings] t(1) by (simp add: freshTask_def)
    ultimately show ?thesis by (auto simp: taskKey_def)
  qed
  then show ?thesis using nb by (simp add: mm_def)
qed


text \<open>
  The witness is a run with \<open>maxSubjectsPerDay = 0\<close> over two subjects, \<open>B\<close> then \<open>A\<close>,
  where \<open>A\<close> has a completed task of 60 minutes on Tuesday 3 November, the day after today.
  On Monday the cap stops both subjects. On Tuesday the queue is \<open>B\<close>, \<open>A\<close>: the cap stops
  \<open>B\<close> and lets \<open>A\<close> pass, behind the head of the queue at the start of the inner loop and
  at its head one iteration later.
\<close>

definition exTuesday :: JsDate where
  "exTuesday = \<lparr>getFullYear = 2026, getMonth = 10, getDate = 3\<rparr>"

definition exDoneTue :: DailyTask where
  "exDoneTue = \<lparr>t_id = ''d6'', subjectId = ''A'', date = ''2026-11-03'', plannedMinutes = 60,
              completed = True, actualMinutes = 60, isFixed = False\<rparr>"

definition exWorks :: "Work list" where
  "exWorks = [\<lparr>subject = exSubjectB, minutesNeeded = 180\<rparr>, \<lparr>subject = exSubject, minutesNeeded = 120\<rparr>]"

definition exTueStart :: RunState where
  "exTueStart = \<lparr>pendingWork = exWorks, newAutoTasks = [], uuidCalls = 0, currentDate = exTuesday,
      daysCount = 1, assignedSubjectIdsToday = [''A''], minutesAllocatedToday = 60, activeSubjects = [0, 1]\<rparr>"

definition exTueNext :: RunState where
  "exTueNext = \<lparr>pendingWork = exWorks, newAutoTasks = [], uuidCalls = 0, currentDate = exTuesday,
      daysCount = 1, assignedSubjectIdsToday = [''A''], minutesAllocatedToday = 60, activeSubjects = [1]\<rparr>"

lemma exTuesday_next: "setDateNext exToday = exTuesday"
  by code_simp

lemma exTuesday_string: "toLocalDateString exTuesday = ''2026-11-03''"
  by code_simp

lemma exTuesday_minutes: "maxMinutesOn exCapZero exTuesday = 180"
  by code_simp

lemma exTue_preserved: "fixedOrCompletedTasks [exDoneTue] = [exDoneTue]"
  by (simp add: fixedOrCompletedTasks_def exDoneTue_def)

lemma exTue_pending: "initialPendingWork [exSubjectB, exSubject] [exDoneTue] = exWorks"
  by (simp add: initialPendingWork_def exDoneTue_def exSubject_def exSubjectB_def allocatedMins_def
        calculateTotalHoursNeeded_def exWorks_def)

lemma exTue_queue:
  "activeSubjectsOf ''2026-11-02'' exWorks = [0, 1]" "activeSubjectsOf ''2026-11-03'' exWorks = [0, 1]"
  by (simp_all add: activeSubjectsOf_def sortBy_def compareWork_def exSubject_def exSubjectB_def
        strLessEq_def exWorks_def upt_rec)

lemma exMonday:
  "dayStep exUuid exCapZero [exDoneTue] (initialState exToday exWorks)
     = (initialState exToday exWorks)\<lparr>currentDate := exTuesday, daysCount := 1\<rparr>"
proof -
  define I where "I = initialState exToday exWorks"
  have f: "minutesAllocatedToday I = 0" "activeSubjects I = []" "assignedSubjectIdsToday I = []"
    "currentDate I = exToday" "pendingWork I = exWorks"
    by (simp_all add: I_def initialState_def)
  have s: "dayStart [exDoneTue] I = I\<lparr>activeSubjects := [0, 1]\<rparr>"
    by (simp add: dayStart_def f exToday_string exTue_queue assignedIdsOf_def
          existingMinsToday_def exDoneTue_def)
  have b0: "capBlocks exCapZero (I\<lparr>activeSubjects := [0, 1]\<rparr>) 0"
    and b1: "capBlocks exCapZero (I\<lparr>activeSubjects := [1]\<rparr>) 1"
    by (simp_all add: capBlocks_def f exCapZero_def)
  have s1: "allocateStep exUuid exCapZero ''2026-11-02'' 180 (I\<lparr>activeSubjects := [0, 1]\<rparr>)
      = I\<lparr>activeSubjects := [1]\<rparr>"
    using allocateStep_skip[OF _ b0, of "[1]" exUuid "''2026-11-02''" 180] by simp
  have s2: "allocateStep exUuid exCapZero ''2026-11-02'' 180 (I\<lparr>activeSubjects := [1]\<rparr>) = I"
    using f(2) allocateStep_skip[OF _ b1, of "[]" exUuid "''2026-11-02''" 180] by simp
  have l: "allocateLoop exUuid exCapZero ''2026-11-02'' 180 (I\<lparr>activeSubjects := [0, 1]\<rparr>) = I"
    apply (subst allocateLoop.simps)
    apply (simp only: s1 RunState.simps f list.simps simp_thms if_True)
    apply (subst allocateLoop.simps)
    apply (simp only: s2 RunState.simps f list.simps simp_thms if_True)
    apply (subst allocateLoop.simps)
    apply (simp add: f)
    done
  have "dayStep exUuid exCapZero [exDoneTue] I = I\<lparr>currentDate := exTuesday, daysCount := 1\<rparr>"
    unfolding dayStep_def Let_def f exToday_string exCapZero_minutes s l
    by (simp add: f exTuesday_next) (simp add: I_def initialState_def)
  then show ?thesis by (simp add: I_def)
qed

lemma exTue_run:
  "runReaches exUuid exCapZero [exDoneTue] (initialState exToday exWorks)
     ((initialState exToday exWorks)\<lparr>currentDate := exTuesday, daysCount := 1\<rparr>)"
proof -
  have "runReaches exUuid exCapZero [exDoneTue] (initialState exToday exWorks)
     (dayStep exUuid exCapZero [exDoneTue] (initialState exToday exWorks))"
    by (rule run_day[OF run_start]) (simp_all add: initialState_def exWorks_def MAX_DAYS_def)
  then show ?thesis by (simp only: exMonday)
qed

lemma exTue_start:
  "duringRun exUuid exToday [exSubjectB, exSubject] [exDoneTue] exCapZero exTuesday exTueStart"
proof -
  have "loopState exUuid exCapZero [exDoneTue] (initialState exToday exWorks)
      (currentDate ((initialState exToday exWorks)\<lparr>currentDate := exTuesday, daysCount := 1\<rparr>))
      (dayStart [exDoneTue] ((initialState exToday exWorks)\<lparr>currentDate := exTuesday, daysCount := 1\<rparr>))"
    by (rule day_start[OF exTue_run]) (simp_all add: initialState_def exWorks_def MAX_DAYS_def)
  moreover have "dayStart [exDoneTue] ((initialState exToday exWorks)\<lparr>currentDate := exTuesday, daysCount := 1\<rparr>)
      = exTueStart"
    by (simp add: dayStart_def initialState_def exTuesday_string exTue_queue assignedIdsOf_def
          existingMinsToday_def exDoneTue_def setAdd_def exTueStart_def)
  ultimately show ?thesis
    by (simp add: duringRun_def exTue_preserved exTue_pending)
qed

lemma exTue_next:
  "duringRun exUuid exToday [exSubjectB, exSubject] [exDoneTue] exCapZero exTuesday exTueNext"
proof -
  have b: "capBlocks exCapZero exTueStart 0"
    by (simp add: capBlocks_def exTueStart_def exCapZero_def exWorks_def exSubjectB_def)
  have q: "activeSubjects exTueStart = [0, 1]"
    by (simp add: exTueStart_def)
  have "loopState exUuid exCapZero [exDoneTue] (initialState exToday exWorks) exTuesday
      (allocateStep exUuid exCapZero (toLocalDateString exTuesday) (maxMinutesOn exCapZero exTuesday) exTueStart)"
    using exTue_start
    by (intro day_iteration)
       (simp_all add: duringRun_def exTue_preserved exTue_pending exTuesday_minutes, simp_all add: exTueStart_def)
  moreover have "allocateStep exUuid exCapZero (toLocalDateString exTuesday) (maxMinutesOn exCapZero exTuesday) exTueStart
      = exTueNext"
    unfolding allocateStep_skip[OF q b] by (simp add: exTueStart_def exTueNext_def)
  ultimately show ?thesis
    by (simp add: duringRun_def exTue_preserved exTue_pending)
qed

theorem preserved_subject_passes_cap_witness:
  "maxSubjectsPerDay exCapZero = 0
   \<and> exDoneTue \<in> set (fixedOrCompletedTasks [exDoneTue])
   \<and> date exDoneTue = toLocalDateString exTuesday
   \<and> duringRun exUuid exToday [exSubjectB, exSubject] [exDoneTue] exCapZero exTuesday exTueStart
   \<and> activeSubjects exTueStart = [0, 1]
   \<and> subjectId exDoneTue = s_id (subject (pendingWork exTueStart ! 1))
   \<and> capBlocks exCapZero exTueStart 0
   \<and> \<not> capBlocks exCapZero exTueStart 1
   \<and> duringRun exUuid exToday [exSubjectB, exSubject] [exDoneTue] exCapZero exTuesday exTueNext
   \<and> activeSubjects exTueNext = [1]
   \<and> subjectId exDoneTue = s_id (subject (pendingWork exTueNext ! 1))
   \<and> minutesAllocatedToday exTueNext < maxMinutesOn exCapZero exTuesday
   \<and> list_ex (\<lambda>t. subjectId t = ''A'' \<and> date t = ''2026-11-03'' \<and> 0 < plannedMinutes t)
        (generatedTasks exUuid exToday [exSubjectB, exSubject] [exDoneTue] exCapZero)"
proof -
  have z: "maxSubjectsPerDay exCapZero = 0" by (simp add: exCapZero_def)
  have p: "exDoneTue \<in> set (fixedOrCompletedTasks [exDoneTue])" "date exDoneTue = toLocalDateString exTuesday"
    by (simp_all add: exTue_preserved exTuesday_string) (simp add: exDoneTue_def)
  have i1: "subjectId exDoneTue = s_id (subject (pendingWork exTueStart ! 1))"
    and i2: "subjectId exDoneTue = s_id (subject (pendingWork exTueNext ! 1))"
    by (simp_all add: exDoneTue_def exTueStart_def exTueNext_def exWorks_def exSubject_def)
  have q1: "activeSubjects exTueStart = [0, 1]" and q2: "activeSubjects exTueNext = [1]"
    by (simp_all add: exTueStart_def exTueNext_def)
  have b: "capBlocks exCapZero exTueStart 0"
    by (simp add: capBlocks_def exTueStart_def exCapZero_def exWorks_def exSubjectB_def)
  have c: "minutesAllocatedToday exTueNext < maxMinutesOn exCapZero exTuesday"
    by (simp add: exTuesday_minutes exTueNext_def)
  have g: "\<not> capBlocks exCapZero exTueStart 1"
    using preserved_subject_passes_cap[OF exTue_start p i1] by simp
  have "\<exists>t\<in>set (generatedTasks exUuid exToday [exSubjectB, exSubject] [exDoneTue] exCapZero).
      subjectId t = subjectId exDoneTue \<and> date t = date exDoneTue \<and> 0 < plannedMinutes t"
    using preserved_subject_passes_cap[OF exTue_next p i2, of "[]"] q2 c by simp
  then have a: "list_ex (\<lambda>t. subjectId t = ''A'' \<and> date t = ''2026-11-03'' \<and> 0 < plannedMinutes t)
        (generatedTasks exUuid exToday [exSubjectB, exSubject] [exDoneTue] exCapZero)"
    by (simp add: list_ex_iff exDoneTue_def)
  show ?thesis
    by (intro conjI z p exTue_start q1 i1 b g exTue_next q2 i2 c a)
qed

end
